theory Spec2Isabelle
  imports Main
begin

chapter \<open>The stream resolution engine of \<^verbatim>\<open>src/api/proxy.ts\<close>\<close>

text \<open>
  A shallow embedding of the cache (\<^verbatim>\<open>getCached\<close>, \<^verbatim>\<open>setCache\<close>), the seven
  extractors and \<^verbatim>\<open>resolveLink\<close>, and the properties proved of them.
  \<^item> One call runs to completion: the interleaving of concurrent requests at an
    \<^verbatim>\<open>await\<close> is not modelled.
  \<^item> The clock, the random number generator, the network, \<^verbatim>\<open>atob\<close> and cheerio are
    parameters (the record \<open>prims\<close>); the network and the clock have a state of their own,
    so that two calls can answer differently.
  \<^item> Exceptions are values: a computation returns \<open>Inl\<close> of the thrown value or \<open>Inr\<close> of
    its result, with the state it leaves.
  \<^item> \<^verbatim>\<open>console.log\<close> and \<^verbatim>\<open>console.error\<close> append to a console in the state; the
    line each extractor logs on entry is the trace of its invocation.
  \<^item> JSON read from the network is untyped: \<^verbatim>\<open>res.json()\<close> can give any JSON value,
    whatever type the call site declares.
\<close>

section \<open>JavaScript strings\<close>

text \<open>
  Strings are modelled as lists of 8-bit characters, read as UTF-16 code units below 256.
  The functions below follow the \<^verbatim>\<open>String.prototype\<close> methods that
  \<^verbatim>\<open>src/api/proxy.ts\<close> calls.
\<close>

definition lower_char :: "char \<Rightarrow> char" where
  "lower_char c =
     (let n = of_char c :: nat
      in if (65 \<le> n \<and> n \<le> 90) \<or> (192 \<le> n \<and> n \<le> 222 \<and> n \<noteq> 215)
         then char_of (n + 32) else c)"

definition upper_char :: "char \<Rightarrow> char" where
  "upper_char c =
     (let n = of_char c :: nat
      in if (97 \<le> n \<and> n \<le> 122) \<or> (224 \<le> n \<and> n \<le> 254 \<and> n \<noteq> 247)
         then char_of (n - 32) else c)"

definition toLowerCase :: "string \<Rightarrow> string" where
  "toLowerCase s = map lower_char s"

definition startsWith :: "string \<Rightarrow> string \<Rightarrow> bool" where
  "startsWith s p = (take (length p) s = p)"

fun str_includes :: "string \<Rightarrow> string \<Rightarrow> bool" where
  "str_includes [] t = (t = [])"
| "str_includes (x # s) t = (startsWith (x # s) t \<or> str_includes s t)"

text \<open>\<^verbatim>\<open>s.split(sep)\<close>: the pieces of \<open>s\<close> between the occurrences of \<open>sep\<close>,
  scanned from the left; \<open>acc\<close> holds the current piece, reversed.\<close>

function split_from :: "string \<Rightarrow> string \<Rightarrow> string \<Rightarrow> string list" where
  "split_from sep acc s =
     (if s = [] then [rev acc]
      else if sep \<noteq> [] \<and> startsWith s sep
        then rev acc # split_from sep [] (drop (length sep) s)
      else split_from sep (hd s # acc) (tl s))"
  by pat_completeness auto
termination
  by (relation "measure (\<lambda>(sep, acc, s). length s)") auto

definition split :: "string \<Rightarrow> string \<Rightarrow> string list" where
  "split s sep = split_from sep [] s"

text \<open>\<^verbatim>\<open>xs.join(sep)\<close>.\<close>

fun join :: "string list \<Rightarrow> string \<Rightarrow> string" where
  "join [] sep = []"
| "join [x] sep = x"
| "join (x # y # ys) sep = x @ sep @ join (y # ys) sep"

text \<open>\<^verbatim>\<open>xs.pop()\<close> read as an expression: the last element, \<^verbatim>\<open>undefined\<close> on
  the empty array. \<^verbatim>\<open>xs[i]\<close>: \<^verbatim>\<open>undefined\<close> out of range.\<close>

definition pop :: "'a list \<Rightarrow> 'a option" where
  "pop xs = (if xs = [] then None else Some (last xs))"

definition at_index :: "'a list \<Rightarrow> nat \<Rightarrow> 'a option" where
  "at_index xs i = (if i < length xs then Some (xs ! i) else None)"

text \<open>Truthiness of a value that is a string or \<^verbatim>\<open>undefined\<close>/\<^verbatim>\<open>null\<close>, and
  \<^verbatim>\<open>a || b\<close> on two such values.\<close>

definition truthy :: "string option \<Rightarrow> bool" where
  "truthy v = (case v of None \<Rightarrow> False | Some s \<Rightarrow> s \<noteq> [])"

definition js_or :: "string option \<Rightarrow> string option \<Rightarrow> string option" where
  "js_or a b = (if truthy a then a else b)"

text \<open>Decimal digits of a number, as template literals and string concatenation print it.\<close>

fun digits_of :: "nat \<Rightarrow> string" where
  "digits_of n =
     (if n < 10 then [char_of (48 + n)]
      else digits_of (n div 10) @ [char_of (48 + n mod 10)])"

definition int_to_string :: "int \<Rightarrow> string" where
  "int_to_string i = (if i < 0 then CHR ''-'' # digits_of (nat (- i)) else digits_of (nat i))"


section \<open>Regular expressions\<close>

text \<open>
  The regular expressions of the source use literals, character classes, \<^verbatim>\<open>\s\<close>,
  \<^verbatim>\<open>\d\<close>, sequence, alternation, the greedy quantifiers and capture groups. \<open>rmatch\<close> is
  a backtracking matcher: it returns every way the expression matches a prefix of the input,
  in the order in which a backtracking engine tries them (greedy first), each with the rest
  of the input and the captures. The first flag is the \<^verbatim>\<open>i\<close> flag.
\<close>

datatype cset = CChar char | CRange char char | CSpace | CDigit

fun in_cset :: "cset \<Rightarrow> char \<Rightarrow> bool" where
  "in_cset (CChar c) x = (x = c)"
| "in_cset (CRange a b) x = ((of_char a :: nat) \<le> of_char x \<and> (of_char x :: nat) \<le> of_char b)"
| "in_cset CSpace x = ((of_char x :: nat) \<in> {9, 10, 11, 12, 13, 32, 160})"
| "in_cset CDigit x = ((48::nat) \<le> of_char x \<and> (of_char x :: nat) \<le> 57)"

text \<open>Under the \<^verbatim>\<open>i\<close> flag a class holds a character when it holds one of its
  case variants.\<close>

definition in_class :: "bool \<Rightarrow> cset list \<Rightarrow> char \<Rightarrow> bool" where
  "in_class ci cs x =
     list_ex (\<lambda>k. in_cset k x \<or> (ci \<and> (in_cset k (lower_char x) \<or> in_cset k (upper_char x)))) cs"

datatype regex =
    Lit string
  | Any "cset list"
  | Non "cset list"
  | Cat regex regex
  | Alt regex regex
  | Star regex
  | Group nat regex

definition Plus :: "regex \<Rightarrow> regex" where
  "Plus r = Cat r (Star r)"

definition Opt :: "regex \<Rightarrow> regex" where
  "Opt r = Alt r (Lit [])"

type_synonym caps = "string option list"

definition lit_prefix :: "bool \<Rightarrow> string \<Rightarrow> string \<Rightarrow> bool" where
  "lit_prefix ci l s =
     (if ci then toLowerCase (take (length l) s) = toLowerCase l else startsWith s l)"

function rmatch :: "bool \<Rightarrow> regex \<Rightarrow> string \<Rightarrow> caps \<Rightarrow> (string \<times> caps) list" where
  "rmatch ci (Lit l) s c = (if lit_prefix ci l s then [(drop (length l) s, c)] else [])"
| "rmatch ci (Any cs) s c =
     (case s of [] \<Rightarrow> [] | x # s' \<Rightarrow> if in_class ci cs x then [(s', c)] else [])"
| "rmatch ci (Non cs) s c =
     (case s of [] \<Rightarrow> [] | x # s' \<Rightarrow> if in_class ci cs x then [] else [(s', c)])"
| "rmatch ci (Cat r1 r2) s c =
     concat (map (\<lambda>(s', c'). rmatch ci r2 s' c') (rmatch ci r1 s c))"
| "rmatch ci (Alt r1 r2) s c = rmatch ci r1 s c @ rmatch ci r2 s c"
| "rmatch ci (Star r) s c =
     concat (map (\<lambda>(s', c'). rmatch ci (Star r) s' c')
                 (filter (\<lambda>(s', c'). length s' < length s) (rmatch ci r s c))) @ [(s, c)]"
| "rmatch ci (Group n r) s c =
     map (\<lambda>(s', c'). (s', c'[n := Some (take (length s - length s') s)])) (rmatch ci r s c)"
  by pat_completeness auto
termination
  by (relation "measures [\<lambda>(ci, r, s, c). size r, \<lambda>(ci, r, s, c). length s]") auto

fun ngroups :: "regex \<Rightarrow> nat" where
  "ngroups (Cat r1 r2) = max (ngroups r1) (ngroups r2)"
| "ngroups (Alt r1 r2) = max (ngroups r1) (ngroups r2)"
| "ngroups (Star r) = ngroups r"
| "ngroups (Group n r) = max n (ngroups r)"
| "ngroups r = 0"

text \<open>One found match: the text before it, the match array (the matched text at index 0,
  the capture groups after it) and the text after it.\<close>

record found =
  before :: string
  groups :: caps
  after :: string

text \<open>The leftmost match: the first start position at which the expression matches, with
  the first alternative the backtracking order yields there.\<close>

fun search_from :: "bool \<Rightarrow> regex \<Rightarrow> string \<Rightarrow> string \<Rightarrow> found option" where
  "search_from ci r pre s =
     (case rmatch ci r s (replicate (Suc (ngroups r)) None) of
        (s', c) # _ \<Rightarrow>
          Some \<lparr>before = rev pre,
                groups = c[0 := Some (take (length s - length s') s)],
                after = s'\<rparr>
      | [] \<Rightarrow> (case s of [] \<Rightarrow> None | x # xs \<Rightarrow> search_from ci r (x # pre) xs))"

declare search_from.simps [simp del]

text \<open>\<^verbatim>\<open>s.match(re)\<close> for an expression without the \<^verbatim>\<open>g\<close> flag: the match array or
  \<^verbatim>\<open>null\<close>; \<open>grp m i\<close> reads \<^verbatim>\<open>m?.[i]\<close>.\<close>

definition js_match :: "bool \<Rightarrow> regex \<Rightarrow> string \<Rightarrow> caps option" where
  "js_match ci r s = map_option groups (search_from ci r [] s)"

definition grp :: "caps option \<Rightarrow> nat \<Rightarrow> string option" where
  "grp m i = (case m of None \<Rightarrow> None | Some c \<Rightarrow> if i < length c then c ! i else None)"

text \<open>\<^verbatim>\<open>re.test(s)\<close> and \<^verbatim>\<open>s.replace(re, t)\<close> (first match only, no \<^verbatim>\<open>g\<close> flag;
  \<open>t\<close> without replacement patterns).\<close>

definition js_test :: "bool \<Rightarrow> regex \<Rightarrow> string \<Rightarrow> bool" where
  "js_test ci r s = (js_match ci r s \<noteq> None)"

definition js_replace :: "bool \<Rightarrow> regex \<Rightarrow> string \<Rightarrow> string \<Rightarrow> string" where
  "js_replace ci r t s =
     (case search_from ci r [] s of None \<Rightarrow> s | Some f \<Rightarrow> before f @ t @ after f)"

text \<open>\<^verbatim>\<open>s.match(re)\<close> with the \<^verbatim>\<open>g\<close> flag: every matched text, left to right, each
  search starting where the last match ended (one character further after an empty match).\<close>

function match_all_from :: "bool \<Rightarrow> regex \<Rightarrow> string \<Rightarrow> string list" where
  "match_all_from ci r s =
     (case search_from ci r [] s of
        None \<Rightarrow> []
      | Some f \<Rightarrow>
          (case at_index (groups f) 0 of
             Some (Some m) \<Rightarrow>
               m # (if length (after f) < length s then match_all_from ci r (after f)
                    else (case after f of [] \<Rightarrow> [] | _ # rest \<Rightarrow>
                            if length rest < length s then match_all_from ci r rest else []))
           | _ \<Rightarrow> []))"
  by pat_completeness auto
termination
  by (relation "measure (\<lambda>(ci, r, s). length s)") auto

definition js_match_all :: "bool \<Rightarrow> regex \<Rightarrow> string \<Rightarrow> string list option" where
  "js_match_all ci r s = (case match_all_from ci r s of [] \<Rightarrow> None | ms \<Rightarrow> Some ms)"


section \<open>Data model\<close>

text \<open>The interfaces \<^verbatim>\<open>StreamLink\<close> and \<^verbatim>\<open>CacheEntry<T>\<close> (lines 12-18 and 47-50).\<close>

datatype StreamType = M3u8 | Mp4 | Mkv

record StreamLink =
  server :: string
  link :: string
  stype :: StreamType
  quality :: "string option"
  headers :: "(string \<times> string) list option"

record 'a CacheEntry =
  data :: 'a
  timestamp :: int

text \<open>What \<^verbatim>\<open>getCached\<close> returns on a hit: \<^verbatim>\<open>{ data, cached: true }\<close>.\<close>

record 'a CacheHit =
  hit_data :: 'a
  cached :: bool

text \<open>
  A JavaScript \<^verbatim>\<open>Map\<close> keeps its entries in insertion order, and \<^verbatim>\<open>set\<close> on a key
  it holds replaces the value in place: an association list with distinct keys.
\<close>

type_synonym ('k, 'v) js_map = "('k \<times> 'v) list"

definition map_get :: "('k, 'v) js_map \<Rightarrow> 'k \<Rightarrow> 'v option" where
  "map_get m k = map_of m k"

definition map_size :: "('k, 'v) js_map \<Rightarrow> nat" where
  "map_size m = length m"

definition map_delete :: "('k, 'v) js_map \<Rightarrow> 'k \<Rightarrow> ('k, 'v) js_map" where
  "map_delete m k = filter (\<lambda>kv. fst kv \<noteq> k) m"

definition map_set :: "('k, 'v) js_map \<Rightarrow> 'k \<Rightarrow> 'v \<Rightarrow> ('k, 'v) js_map" where
  "map_set m k v =
     (if k \<in> fst ` set m then map (\<lambda>kv. if fst kv = k then (k, v) else kv) m
      else m @ [(k, v)])"


section \<open>The environment\<close>

text \<open>
  A thrown JavaScript value. Functions that can throw return \<open>error + 'a\<close>, \<open>Inl\<close> the
  thrown value.
\<close>

datatype error = Error string

text \<open>
  A value \<^verbatim>\<open>JSON.parse\<close> can give. The type argument of
  \<^verbatim>\<open>fetchJson<{ name: string; size: number; mime_type: string }>\<close> (line 176) is not
  checked at run time, so the answer of the network is any of these. A number is kept as its
  literal; an object is the list of its members in the order of the text, and a key written
  twice has the value written last.
\<close>

datatype json =
    JNull
  | JBool bool
  | JNumber string
  | JString string
  | JArray "json list"
  | JObject "(string \<times> json) list"

text \<open>The \<^verbatim>\<open>Response\<close> of \<^verbatim>\<open>fetch\<close>: \<^verbatim>\<open>res.ok\<close>, and what awaiting
  \<^verbatim>\<open>res.text()\<close> and \<^verbatim>\<open>res.json()\<close> gives (either can reject).\<close>

record response =
  ok :: bool
  res_text :: "error + string"
  res_json :: "error + json"

record request =
  req_url :: string
  req_headers :: "(string \<times> string) list"
  req_timeout :: "nat option"

text \<open>An element a cheerio selection yields: \<^verbatim>\<open>$(el).attr("href")\<close> and
  \<^verbatim>\<open>$(el).text()\<close>.\<close>

record element =
  href :: "string option"
  el_text :: string

text \<open>
  What the program takes from outside, as parameters: the clock, the random number
  generator, the network, and the libraries \<^verbatim>\<open>atob\<close> and cheerio. \<open>'e\<close> is the state of
  the outside world (each call can change it, so two fetches of one URL can differ), \<open>'d\<close> a
  loaded cheerio document.
  \<^item> \<open>date_now\<close>: \<^verbatim>\<open>Date.now()\<close>;
  \<^item> \<open>random36\<close>: \<^verbatim>\<open>Math.random().toString(36).substring(2)\<close>;
  \<^item> \<open>fetch\<close>: \<^verbatim>\<open>await fetch(url, { headers, redirect: "follow", signal })\<close>, which
    rejects on a network error or when the timeout aborts it;
  \<^item> \<open>atob\<close>: throws on input that is not base64;
  \<^item> \<open>cheerio_load\<close>, \<open>cheerio_select\<close>, \<open>cheerio_html\<close>: \<^verbatim>\<open>cheerio.load(html)\<close>,
    the elements \<^verbatim>\<open>$(selector)\<close> yields in document order, and \<^verbatim>\<open>$.html()\<close>.
\<close>

record ('e, 'd) prims =
  date_now :: "'e \<Rightarrow> int \<times> 'e"
  random36 :: "'e \<Rightarrow> string \<times> 'e"
  fetch :: "request \<Rightarrow> 'e \<Rightarrow> (error + response) \<times> 'e"
  atob :: "string \<Rightarrow> error + string"
  cheerio_load :: "string \<Rightarrow> error + 'd"
  cheerio_select :: "'d \<Rightarrow> string \<Rightarrow> error + element list"
  cheerio_html :: "'d \<Rightarrow> error + string option"


section \<open>The cache (lines 52-80)\<close>

definition CACHE_TTL_providerUrls :: int where "CACHE_TTL_providerUrls = 10 * 60 * 1000"
definition CACHE_TTL_posts :: int where "CACHE_TTL_posts = 5 * 60 * 1000"
definition CACHE_TTL_meta :: int where "CACHE_TTL_meta = 30 * 60 * 1000"
definition CACHE_TTL_streams :: int where "CACHE_TTL_streams = 15 * 60 * 1000"

text \<open>
  \<^verbatim>\<open>getCached(map, key, ttl)\<close>: \<^verbatim>\<open>Date.now()\<close> is read only when the key has an
  entry (\<^verbatim>\<open>entry && ...\<close>).
\<close>

definition getCached ::
  "('e, 'd) prims \<Rightarrow> (string, 'a CacheEntry) js_map \<Rightarrow> string \<Rightarrow> int \<Rightarrow> 'e \<Rightarrow> 'a CacheHit option \<times> 'e"
where
  "getCached P m key ttl e =
     (case map_get m key of
        None \<Rightarrow> (None, e)
      | Some entry \<Rightarrow>
          (let (now, e') = date_now P e
           in if now - timestamp entry < ttl
              then (Some \<lparr>hit_data = data entry, cached = True\<rparr>, e')
              else (None, e')))"

text \<open>
  \<^verbatim>\<open>setCache(map, key, data)\<close>. \<^verbatim>\<open>[...map.entries()].sort(...)\<close> is a stable sort
  by timestamp; \<^verbatim>\<open>oldest\<close> is its first element.
\<close>

definition setCache ::
  "('e, 'd) prims \<Rightarrow> (string, 'a CacheEntry) js_map \<Rightarrow> string \<Rightarrow> 'a \<Rightarrow> 'e \<Rightarrow> (string, 'a CacheEntry) js_map \<times> 'e"
where
  "setCache P m key dat e =
     (let m1 = (if map_size m > 1000
                then (case sort_key (\<lambda>kv. timestamp (snd kv)) m of
                        [] \<Rightarrow> m
                      | oldest # _ \<Rightarrow> map_delete m (fst oldest))
                else m);
          (now, e') = date_now P e
      in (map_set m1 key \<lparr>data = dat, timestamp = now\<rparr>, e'))"


section \<open>Control flow and state\<close>

text \<open>
  A computation takes the state and returns the new state with either the value it returns
  or the value it throws. \<open>try_catch\<close> keeps the state changes made before the throw, as
  JavaScript does.
\<close>

type_synonym ('a, 's) js = "'s \<Rightarrow> (error + 'a) \<times> 's"

definition ret :: "'a \<Rightarrow> ('a, 's) js" where
  "ret x = (\<lambda>s. (Inr x, s))"

definition bnd :: "('a, 's) js \<Rightarrow> ('a \<Rightarrow> ('b, 's) js) \<Rightarrow> ('b, 's) js" where
  "bnd m f = (\<lambda>s. case m s of (Inl e, s') \<Rightarrow> (Inl e, s') | (Inr x, s') \<Rightarrow> f x s')"

definition try_catch :: "('a, 's) js \<Rightarrow> (error \<Rightarrow> ('a, 's) js) \<Rightarrow> ('a, 's) js" where
  "try_catch m h = (\<lambda>s. case m s of (Inl e, s') \<Rightarrow> h e s' | (Inr x, s') \<Rightarrow> (Inr x, s'))"

text \<open>Reading the state (a local variable of the function that runs).\<close>

definition get :: "('s, 's) js" where
  "get = (\<lambda>s. (Inr s, s))"

text \<open>A call of a library function that returns or throws, and does nothing else.\<close>

definition of_result :: "error + 'a \<Rightarrow> ('a, 's) js" where
  "of_result r = (\<lambda>s. (r, s))"

text \<open>\<^verbatim>\<open>for (const x of xs) { f(x) }\<close> and \<^verbatim>\<open>$(sel).each((_, x) => f(x))\<close>.\<close>

fun each :: "'a list \<Rightarrow> ('a \<Rightarrow> (unit, 's) js) \<Rightarrow> (unit, 's) js" where
  "each [] f = ret ()"
| "each (x # xs) f = bnd (f x) (\<lambda>_. each xs f)"

text \<open>
  The state of the program: the outside world, the console, and the module's
  \<^verbatim>\<open>cache.streams\<close> map (the other three caches are not read or written by the functions
  modelled here).
\<close>

datatype logarg = LStr string | LNum nat | LErr error

datatype logline = Log "logarg list" | LogError "logarg list"

record 'e world =
  env :: 'e
  console :: "logline list"
  cache_streams :: "(string, StreamLink list CacheEntry) js_map"

definition console_log :: "logarg list \<Rightarrow> (unit, 'e world) js" where
  "console_log args = (\<lambda>w. (Inr (), w\<lparr>console := console w @ [Log args]\<rparr>))"

definition console_error :: "logarg list \<Rightarrow> (unit, 'e world) js" where
  "console_error args = (\<lambda>w. (Inr (), w\<lparr>console := console w @ [LogError args]\<rparr>))"

text \<open>A call into the outside world that cannot throw, and one that can.\<close>

definition io :: "('e \<Rightarrow> 'a \<times> 'e) \<Rightarrow> ('a, 'e world) js" where
  "io f = (\<lambda>w. case f (env w) of (x, e') \<Rightarrow> (Inr x, w\<lparr>env := e'\<rparr>))"

definition io_try :: "('e \<Rightarrow> (error + 'a) \<times> 'e) \<Rightarrow> ('a, 'e world) js" where
  "io_try f = (\<lambda>w. case f (env w) of (r, e') \<Rightarrow> (r, w\<lparr>env := e'\<rparr>))"


section \<open>Fetching and small helpers (lines 82-145)\<close>

definition defaultHeaders :: "(string \<times> string) list" where
  "defaultHeaders =
     [(''User-Agent'', ''Mozilla/5.0 (Windows NT 10.0; Win64; x64) AppleWebKit/537.36 Chrome/120.0.0.0 Safari/537.36''),
      (''Accept'', ''text/html,application/xhtml+xml,application/xml;q=0.9,*/*;q=0.8''),
      (''Accept-Language'', ''en-US,en;q=0.9'')]"

text \<open>\<^verbatim>\<open>{ ...a, ...b }\<close> on two objects with string values.\<close>

definition spread :: "(string \<times> string) list \<Rightarrow> (string \<times> string) list \<Rightarrow> (string \<times> string) list" where
  "spread a b = fold (\<lambda>kv m. map_set m (fst kv) (snd kv)) b a"

text \<open>
  \<^verbatim>\<open>fetchHtml(url, { headers })\<close>; no caller passes \<^verbatim>\<open>timeout\<close>, so it is the default
  15000. The \<^verbatim>\<open>AbortController\<close> and the timer are the \<open>req_timeout\<close> of the request: an
  abort makes \<open>fetch\<close> throw.
\<close>

definition fetchHtml :: "('e, 'd) prims \<Rightarrow> string \<Rightarrow> (string \<times> string) list \<Rightarrow> (string option, 'e world) js" where
  "fetchHtml P url hdrs =
     bnd (console_log [LStr (''[FETCH] '' @ url)]) (\<lambda>_.
     try_catch
       (bnd (io_try (fetch P \<lparr>req_url = url, req_headers = spread defaultHeaders hdrs,
                                req_timeout = Some 15000\<rparr>)) (\<lambda>res.
          if ok res then bnd (of_result (res_text res)) (\<lambda>t. ret (Some t)) else ret None))
       (\<lambda>e. bnd (console_error [LStr (''[FETCH ERROR] '' @ url @ '':''), LErr e]) (\<lambda>_. ret None)))"

text \<open>\<^verbatim>\<open>fetchJson(url)\<close>: the parsed body, or \<^verbatim>\<open>null\<close> when the status is not ok or
  anything throws.\<close>

definition fetchJson :: "('e, 'd) prims \<Rightarrow> string \<Rightarrow> (string \<times> string) list \<Rightarrow> (json, 'e world) js" where
  "fetchJson P url hdrs =
     try_catch
       (bnd (io_try (fetch P \<lparr>req_url = url, req_headers = spread defaultHeaders hdrs,
                                req_timeout = None\<rparr>)) (\<lambda>res.
          if ok res then of_result (res_json res) else ret JNull))
       (\<lambda>e. ret JNull)"

definition streamType :: "string \<Rightarrow> StreamType" where
  "streamType url =
     (let u = toLowerCase url
      in if str_includes u ''.m3u8'' then M3u8
         else if str_includes u ''.mp4'' then Mp4
         else Mkv)"

definition decodeBase64 :: "('e, 'd) prims \<Rightarrow> string option \<Rightarrow> string" where
  "decodeBase64 P v =
     (if \<not> truthy v then []
      else (case v of None \<Rightarrow> []
            | Some s \<Rightarrow> (case atob P s of Inl e \<Rightarrow> [] | Inr d \<Rightarrow> d)))"


section \<open>The regular expressions of the extractors\<close>

fun Seq :: "regex list \<Rightarrow> regex" where
  "Seq [] = Lit []"
| "Seq [r] = r"
| "Seq (r # rs) = Cat r (Seq rs)"

definition dq :: char where "dq = CHR 0x22"
definition sq :: char where "sq = CHR 0x27"

definition ws :: regex where \<comment> \<open>\<^verbatim>\<open>\s*\<close>\<close>
  "ws = Star (Any [CSpace])"

definition quote :: regex where \<comment> \<open>\<^verbatim>\<open>['"]\<close>\<close>
  "quote = Any [CChar sq, CChar dq]"

definition unquoted :: regex where \<comment> \<open>\<^verbatim>\<open>[^'"]\<close>\<close>
  "unquoted = Non [CChar sq, CChar dq]"

definition alnum :: regex where \<comment> \<open>\<^verbatim>\<open>[a-zA-Z0-9]\<close>\<close>
  "alnum = Any [CRange CHR ''a'' CHR ''z'', CRange CHR ''A'' CHR ''Z'', CRange CHR ''0'' CHR ''9'']"

definition urlchar :: regex where \<comment> \<open>\<^verbatim>\<open>[^\s"'<>]\<close>\<close>
  "urlchar = Non [CSpace, CChar dq, CChar sq, CChar CHR ''<'', CChar CHR ''>'']"

definition rx_pd_u :: regex where \<comment> \<open>\<^verbatim>\<open>/\/u\/([a-zA-Z0-9]+)/\<close>\<close>
  "rx_pd_u = Seq [Lit ''/u/'', Group 1 (Plus alnum)]"

definition rx_pd_api :: regex where \<comment> \<open>\<^verbatim>\<open>/\/api\/file\/([a-zA-Z0-9]+)/\<close>\<close>
  "rx_pd_api = Seq [Lit ''/api/file/'', Group 1 (Plus alnum)]"

definition rx_st_robot :: regex where
  \<comment> \<open>\<^verbatim>\<open>/getElementById\('robotlink'\)\.innerHTML\s*=\s*['"]([^'"]+)['"]/\<close>\<close>
  "rx_st_robot =
     Seq [Lit ''getElementById('robotlink').innerHTML'', ws, Lit ''='', ws, quote,
          Group 1 (Plus unquoted), quote]"

definition rx_st_token :: regex where \<comment> \<open>\<^verbatim>\<open>/token=([^&'"]+)/\<close>\<close>
  "rx_st_token = Seq [Lit ''token='', Group 1 (Plus (Non [CChar CHR ''&'', CChar sq, CChar dq]))]"

definition rx_st_norobot :: regex where
  \<comment> \<open>\<^verbatim>\<open>/document\.getElementById\('norobotlink'\)\.innerHTML\s*=\s*['"](\/\/[^'"]+)['"]\s*\+\s*\('([^']+)'\)/\<close>\<close>
  "rx_st_norobot =
     Seq [Lit ''document.getElementById('norobotlink').innerHTML'', ws, Lit ''='', ws, quote,
          Group 1 (Seq [Lit ''//'', Plus unquoted]), quote, ws, Lit ''+'', ws,
          Lit (''('' @ [sq]), Group 2 (Plus (Non [CChar sq])), Lit (sq # '')'')]"

definition rx_dood_host :: regex where
  \<comment> \<open>\<^verbatim>\<open>/dood\.(wf|cx|la|pm|so|ws|sh|to|re|yt)/\<close>\<close>
  "rx_dood_host =
     Seq [Lit ''dood.'',
          Group 1 (Alt (Lit ''wf'') (Alt (Lit ''cx'') (Alt (Lit ''la'') (Alt (Lit ''pm'')
            (Alt (Lit ''so'') (Alt (Lit ''ws'') (Alt (Lit ''sh'') (Alt (Lit ''to'')
            (Alt (Lit ''re'') (Lit ''yt''))))))))))]"

definition rx_dood_pass :: regex where \<comment> \<open>\<^verbatim>\<open>/\/pass_md5\/([^'"]+)/\<close>\<close>
  "rx_dood_pass = Seq [Lit ''/pass_md5/'', Group 1 (Plus unquoted)]"

definition rx_fm_file :: regex where
  \<comment> \<open>\<^verbatim>\<open>/file\s*:\s*["']([^"']+\.m3u8[^"']*)/i\<close>\<close>
  "rx_fm_file =
     Seq [Lit ''file'', ws, Lit '':'', ws, quote,
          Group 1 (Seq [Plus unquoted, Lit ''.m3u8'', Star unquoted])]"

definition rx_fm_sources :: regex where
  \<comment> \<open>\<^verbatim>\<open>/sources\s*:\s*\[\{file\s*:\s*["']([^"']+)/i\<close>\<close>
  "rx_fm_sources =
     Seq [Lit ''sources'', ws, Lit '':'', ws, Lit ''[{file'', ws, Lit '':'', ws, quote,
          Group 1 (Plus unquoted)]"

definition rx_m3u8_url :: regex where
  \<comment> \<open>\<^verbatim>\<open>/https?:\/\/[^\s"'<>]+\.m3u8[^\s"'<>]*/gi\<close>\<close>
  "rx_m3u8_url =
     Seq [Lit ''http'', Opt (Lit ''s''), Lit ''://'', Plus urlchar, Lit ''.m3u8'', Star urlchar]"

definition rx_md_wurl :: regex where \<comment> \<open>\<^verbatim>\<open>/MDCore\.wurl\s*=\s*["']([^"']+)/\<close>\<close>
  "rx_md_wurl = Seq [Lit ''MDCore.wurl'', ws, Lit ''='', ws, quote, Group 1 (Plus unquoted)]"

definition rx_var_url :: regex where \<comment> \<open>\<^verbatim>\<open>/var\s+url\s*=\s*['"]([^'"]+)['"]/\<close>\<close>
  "rx_var_url =
     Seq [Lit ''var'', Plus (Any [CSpace]), Lit ''url'', ws, Lit ''='', ws, quote,
          Group 1 (Plus unquoted), quote]"

definition rx_loc_replace :: regex where
  \<comment> \<open>\<^verbatim>\<open>/location\.replace\(['"]([^'"]+)['"]\)/\<close>\<close>
  "rx_loc_replace =
     Seq [Lit ''location.replace('', quote, Group 1 (Plus unquoted), quote, Lit '')'']"

definition rx_win_loc :: regex where
  \<comment> \<open>\<^verbatim>\<open>/window\.location\s*=\s*['"]([^'"]+)['"]/\<close>\<close>
  "rx_win_loc =
     Seq [Lit ''window.location'', ws, Lit ''='', ws, quote, Group 1 (Plus unquoted), quote]"

definition media_ext :: regex where \<comment> \<open>\<^verbatim>\<open>(mp4|mkv|m3u8)\<close>\<close>
  "media_ext = Group 1 (Alt (Lit ''mp4'') (Alt (Lit ''mkv'') (Lit ''m3u8'')))"

definition rx_media_ext :: regex where \<comment> \<open>\<^verbatim>\<open>/\.(mp4|mkv|m3u8)/i\<close>\<close>
  "rx_media_ext = Seq [Lit ''.'', media_ext]"

definition rx_media_url :: regex where
  \<comment> \<open>\<^verbatim>\<open>/https?:\/\/[^\s"'<>]+\.(mp4|mkv|m3u8)[^\s"'<>]*/gi\<close>\<close>
  "rx_media_url =
     Seq [Lit ''http'', Opt (Lit ''s''), Lit ''://'', Plus urlchar, Lit ''.'', media_ext,
          Star urlchar]"

text \<open>A capture group printed in a template literal or read as a string.\<close>

definition grp_str :: "caps option \<Rightarrow> nat \<Rightarrow> string" where
  "grp_str m i = (case grp m i of None \<Rightarrow> ''undefined'' | Some s \<Rightarrow> s)"


section \<open>The extractors (lines 166-556)\<close>

text \<open>
  Every extractor has the shape
  \<^verbatim>\<open>const streams = []; try { ... } catch (e) { console.error(TAG, e); } return streams;\<close>
  (hubcloud and gdflix also keep a set \<^verbatim>\<open>processed\<close>). The local variables live in
  the state of the body, so that what was pushed before a throw is still returned.
  A \<^verbatim>\<open>return streams\<close> inside the \<^verbatim>\<open>try\<close> ends the body.
\<close>

record 'e xstate =
  streams :: "StreamLink list"
  processed :: "string list"
  wld :: "'e world"

definition in_world :: "('a, 'e world) js \<Rightarrow> ('a, 'e xstate) js" where
  "in_world m = (\<lambda>x. case m (wld x) of (r, w') \<Rightarrow> (r, x\<lparr>wld := w'\<rparr>))"

definition xlog :: "logarg list \<Rightarrow> (unit, 'e xstate) js" where
  "xlog args = in_world (console_log args)"

definition push :: "StreamLink \<Rightarrow> (unit, 'e xstate) js" where
  "push c = (\<lambda>x. (Inr (), x\<lparr>streams := streams x @ [c]\<rparr>))"

definition push_all :: "StreamLink list \<Rightarrow> (unit, 'e xstate) js" where
  "push_all cs = (\<lambda>x. (Inr (), x\<lparr>streams := streams x @ cs\<rparr>))"

definition processed_add :: "string \<Rightarrow> (unit, 'e xstate) js" where
  "processed_add h = (\<lambda>x. (Inr (), x\<lparr>processed := (if h \<in> set (processed x) then processed x else processed x @ [h])\<rparr>))"

definition log_found :: "string \<Rightarrow> (unit, 'e xstate) js" where
  \<comment> \<open>\<^verbatim>\<open>console.log(TAG, streams.length)\<close>\<close>
  "log_found tag = bnd get (\<lambda>x. xlog [LStr tag, LNum (length (streams x))])"

definition extractor :: "string \<Rightarrow> (unit, 'e xstate) js \<Rightarrow> (StreamLink list, 'e world) js" where
  "extractor errtag body =
     (\<lambda>w. case try_catch body (\<lambda>e. in_world (console_error [LStr errtag, LErr e]))
                   \<lparr>streams = [], processed = [], wld = w\<rparr> of
             (Inl e, x) \<Rightarrow> (Inl e, wld x)
           | (Inr u, x) \<Rightarrow> (Inr (streams x), wld x))"

definition hd_candidate :: "string \<Rightarrow> string \<Rightarrow> StreamType \<Rightarrow> StreamLink" where
  \<comment> \<open>\<^verbatim>\<open>{ server, link, type, quality: "HD" }\<close>\<close>
  "hd_candidate srv l t = \<lparr>server = srv, link = l, stype = t, quality = Some ''HD'', headers = None\<rparr>"

text \<open>
  \<^verbatim>\<open>info?.mime_type\<close> (line 185): \<^verbatim>\<open>undefined\<close> (here \<open>None\<close>) when \<open>info\<close> is
  \<^verbatim>\<open>null\<close>; the member of an object, \<^verbatim>\<open>undefined\<close> when it has none; and
  \<^verbatim>\<open>undefined\<close> on a boolean, a number, a string or an array, which have no property of
  that name.
\<close>

definition mime_type :: "json \<Rightarrow> json option" where
  "mime_type info =
     (case info of
        JObject members \<Rightarrow> map_of (rev members) ''mime_type''
      | _ \<Rightarrow> None)"

text \<open>
  \<^verbatim>\<open>m?.includes("video")\<close> for \<open>m\<close> the value of \<^verbatim>\<open>info?.mime_type\<close>, as the
  condition of \<^verbatim>\<open>? "mp4" : "mkv"\<close>. The \<^verbatim>\<open>?.\<close> stops at \<^verbatim>\<open>undefined\<close> and
  \<^verbatim>\<open>null\<close> only (the condition is then falsy). A string answers with
  \<^verbatim>\<open>String.prototype.includes\<close> and an array with \<^verbatim>\<open>Array.prototype.includes\<close>
  (is \<^verbatim>\<open>"video"\<close> an element). A boolean and a number have no \<^verbatim>\<open>includes\<close>, and
  that of a parsed object is missing or is itself parsed data: the call throws a
  \<^verbatim>\<open>TypeError\<close>.
\<close>

definition includes_video :: "json option \<Rightarrow> error + bool" where
  "includes_video m =
     (case m of
        None \<Rightarrow> Inr False
      | Some JNull \<Rightarrow> Inr False
      | Some (JString s) \<Rightarrow> Inr (str_includes s ''video'')
      | Some (JArray xs) \<Rightarrow> Inr (JString ''video'' \<in> set xs)
      | Some (JBool b) \<Rightarrow> Inl (Error ''TypeError: info?.mime_type?.includes is not a function'')
      | Some (JNumber n) \<Rightarrow> Inl (Error ''TypeError: info?.mime_type?.includes is not a function'')
      | Some (JObject members) \<Rightarrow> Inl (Error ''TypeError: info?.mime_type?.includes is not a function''))"

text \<open>The object literal of line 182 is evaluated before \<^verbatim>\<open>push\<close> is called: when its
  \<^verbatim>\<open>type\<close> throws, nothing is pushed.\<close>

definition pixeldrainExtractor :: "('e, 'd) prims \<Rightarrow> string \<Rightarrow> (StreamLink list, 'e world) js" where
  "pixeldrainExtractor P url = extractor ''[PIXELDRAIN ERROR]''
     (bnd (xlog [LStr ''[PIXELDRAIN]'', LStr url]) (\<lambda>_.
      let fileId = js_or (grp (js_match False rx_pd_u url) 1)
                         (grp (js_match False rx_pd_api url) 1)
      in bnd (if truthy fileId
              then bnd (in_world (fetchJson P (''https://pixeldrain.com/api/file/'' @ the fileId @ ''/info'') [])) (\<lambda>info.
                   let directUrl = ''https://pixeldrain.com/api/file/'' @ the fileId @ ''?download''
                   in bnd (of_result (includes_video (mime_type info))) (\<lambda>video.
                      push (hd_candidate ''Pixeldrain'' directUrl (if video then Mp4 else Mkv))))
              else ret ()) (\<lambda>_.
         log_found ''[PIXELDRAIN] Found:'')))"

definition streamtapeExtractor :: "('e, 'd) prims \<Rightarrow> string \<Rightarrow> (StreamLink list, 'e world) js" where
  "streamtapeExtractor P url = extractor ''[STREAMTAPE ERROR]''
     (bnd (xlog [LStr ''[STREAMTAPE]'', LStr url]) (\<lambda>_.
      bnd (in_world (fetchHtml P url [])) (\<lambda>fetched.
      if \<not> truthy fetched then ret ()
      else
        let html = the fetched;
            linkMatch = js_match False rx_st_robot html;
            tokenMatch = js_match False rx_st_token html
        in bnd (if linkMatch \<noteq> None
                then push (hd_candidate ''Streamtape''
                       (if tokenMatch \<noteq> None
                        then ''https:'' @ grp_str linkMatch 1 @ ''&token='' @ grp_str tokenMatch 1
                        else ''https:'' @ grp_str linkMatch 1) Mp4)
                else ret ()) (\<lambda>_.
           let altMatch = js_match False rx_st_norobot html
           in bnd (bnd get (\<lambda>x.
                   if altMatch \<noteq> None \<and> length (streams x) = 0
                   then push (hd_candidate ''Streamtape''
                          (''https:'' @ grp_str altMatch 1 @ grp_str altMatch 2) Mp4)
                   else ret ())) (\<lambda>_.
              log_found ''[STREAMTAPE] Found:'')))))"

definition doodstreamExtractor :: "('e, 'd) prims \<Rightarrow> string \<Rightarrow> (StreamLink list, 'e world) js" where
  "doodstreamExtractor P url = extractor ''[DOODSTREAM ERROR]''
     (bnd (xlog [LStr ''[DOODSTREAM]'', LStr url]) (\<lambda>_.
      let normalizedUrl = js_replace False rx_dood_host ''dood.li'' url
      in bnd (in_world (fetchHtml P normalizedUrl [])) (\<lambda>fetched.
      if \<not> truthy fetched then ret ()
      else
        let html = the fetched;
            passMatch = js_match False rx_dood_pass html
        in bnd (if passMatch \<noteq> None
                then
                  let passUrl = ''https://dood.li/pass_md5/'' @ grp_str passMatch 1
                  in bnd (in_world (fetchHtml P passUrl [(''Referer'', normalizedUrl)])) (\<lambda>passRes.
                     if truthy passRes
                     then bnd (in_world (io (random36 P))) (\<lambda>rnd.
                          bnd (in_world (io (date_now P))) (\<lambda>now.
                          let token = ''zUEJeL3mUN'' @ rnd;
                              videoUrl = the passRes @ token @ ''?token=''
                                @ (case pop (split (grp_str passMatch 1) ''/'') of
                                     None \<Rightarrow> ''undefined'' | Some t \<Rightarrow> t)
                                @ ''&expiry='' @ int_to_string now
                          in push \<lparr>server = ''Doodstream'', link = videoUrl, stype = Mp4,
                                   quality = Some ''HD'',
                                   headers = Some [(''Referer'', ''https://dood.li/'')]\<rparr>))
                     else ret ())
                else ret ()) (\<lambda>_.
           log_found ''[DOODSTREAM] Found:''))))"

definition filemoonExtractor :: "('e, 'd) prims \<Rightarrow> string \<Rightarrow> (StreamLink list, 'e world) js" where
  "filemoonExtractor P url = extractor ''[FILEMOON ERROR]''
     (bnd (xlog [LStr ''[FILEMOON]'', LStr url]) (\<lambda>_.
      bnd (in_world (fetchHtml P url [])) (\<lambda>fetched.
      if \<not> truthy fetched then ret ()
      else
        let html = the fetched;
            fileMatch = (case js_match True rx_fm_file html of
                           Some m \<Rightarrow> Some m
                         | None \<Rightarrow> js_match True rx_fm_sources html)
        in bnd (if fileMatch \<noteq> None
                then push (hd_candidate ''Filemoon'' (grp_str fileMatch 1) M3u8)
                else ret ()) (\<lambda>_.
           let m3u8Match = js_match_all True rx_m3u8_url html
           in bnd (bnd get (\<lambda>x.
                   case m3u8Match of
                     Some (m # ms) \<Rightarrow>
                       if length (streams x) = 0
                       then push (hd_candidate ''Filemoon'' m M3u8)
                       else ret ()
                   | _ \<Rightarrow> ret ())) (\<lambda>_.
              log_found ''[FILEMOON] Found:'')))))"

definition mixdropExtractor :: "('e, 'd) prims \<Rightarrow> string \<Rightarrow> (StreamLink list, 'e world) js" where
  "mixdropExtractor P url = extractor ''[MIXDROP ERROR]''
     (bnd (xlog [LStr ''[MIXDROP]'', LStr url]) (\<lambda>_.
      bnd (in_world (fetchHtml P url [])) (\<lambda>fetched.
      if \<not> truthy fetched then ret ()
      else
        let html = the fetched;
            wurlMatch = js_match False rx_md_wurl html
        in bnd (if wurlMatch \<noteq> None
                then
                  let videoUrl = grp_str wurlMatch 1;
                      videoUrl = (if startsWith videoUrl ''//'' then ''https:'' @ videoUrl else videoUrl)
                  in push (hd_candidate ''Mixdrop'' videoUrl Mp4)
                else ret ()) (\<lambda>_.
           log_found ''[MIXDROP] Found:''))))"


text \<open>\<^verbatim>\<open>url.split("/").slice(0, 3).join("/")\<close>: scheme and host of the page.\<close>

definition baseUrl_of :: "string \<Rightarrow> string" where
  "baseUrl_of url = join (take 3 (split url ''/'')) ''/''"

text \<open>\<^verbatim>\<open>href.split("/").pop()?.split("?")[0]\<close>.\<close>

definition last_segment :: "string \<Rightarrow> string option" where
  "last_segment h =
     (case pop (split h ''/'') of None \<Rightarrow> None | Some seg \<Rightarrow> at_index (split seg ''?'') 0)"

definition hubcloud_selectors :: "string list" where
  "hubcloud_selectors =
     [''.btn-success.btn-lg'', ''.btn-success'', ''.btn-danger'', ''.btn-primary'',
      ''.btn-secondary'', ''a[href*=\"pixeldrain\"]'', ''a[href*=\"workers.dev\"]'',
      ''a[href*=\"hubcdn\"]'', ''a[href*=\"cloudflarestorage\"]'', ''a[href*=\"r2.dev\"]'',
      ''a[href*=\".mp4\"]'', ''a[href*=\".mkv\"]'', ''a[href*=\".m3u8\"]'']"

text \<open>The callback of \<^verbatim>\<open>$target(sel).each\<close> in \<^verbatim>\<open>hubcloudExtractor\<close>
  (lines 407-429).\<close>

definition hubcloud_link :: "element \<Rightarrow> (unit, 'e xstate) js" where
  "hubcloud_link el = bnd get (\<lambda>x.
     let h = (if truthy (href el) then the (href el) else [])
     in if h = [] \<or> h = ''#'' \<or> h = ''javascript:void(0)'' \<or> h \<in> set (processed x)
        then ret ()
        else
          (bnd (processed_add h) (\<lambda>_.
           bnd (xlog [LStr ''[HUBCLOUD LINK]'', LStr (take 80 h)]) (\<lambda>_.
           if str_includes h ''workers.dev'' \<or> (str_includes h ''.dev'' \<and> \<not> str_includes h ''/?id='')
             then push (hd_candidate ''CfWorker'' h Mkv)
           else if str_includes h ''pixeldrain''
             then
               let token = last_segment h;
                   h' = (if truthy token \<and> \<not> str_includes h ''/api/file/''
                         then ''https://pixeldrain.com/api/file/'' @ the token @ ''?download''
                         else h)
               in push (hd_candidate ''Pixeldrain'' h' Mkv)
           else if str_includes h ''cloudflarestorage'' \<or> str_includes h ''r2.dev''
                   \<or> str_includes h ''r2.cloudflarestorage''
             then push (hd_candidate ''CfStorage'' h Mkv)
           else if str_includes h ''hubcdn'' \<and> \<not> str_includes h ''/?id=''
             then push (hd_candidate ''HubCdn'' h Mkv)
           else if js_test True rx_media_ext h
             then push (hd_candidate ''Direct'' h (streamType h))
           else ret ()))))"

text \<open>The loops over \<^verbatim>\<open>directUrls\<close> (lines 433-438 and 543-548); \<open>skip\<close> tells the
  URLs left out by their text.\<close>

definition direct_url :: "(string \<Rightarrow> bool) \<Rightarrow> string \<Rightarrow> (unit, 'e xstate) js" where
  "direct_url skip u = bnd get (\<lambda>x.
     if u \<notin> set (processed x) \<and> \<not> skip u
     then bnd (processed_add u) (\<lambda>_. push (hd_candidate ''Direct'' u (streamType u)))
     else ret ())"

definition hubcloudExtractor :: "('e, 'd) prims \<Rightarrow> string \<Rightarrow> (StreamLink list, 'e world) js" where
  "hubcloudExtractor P url = extractor ''[HUBCLOUD ERROR]''
     (bnd (xlog [LStr ''[HUBCLOUD]'', LStr url]) (\<lambda>_.
      let baseUrl = baseUrl_of url
      in bnd (in_world (fetchHtml P url [])) (\<lambda>fetched.
      if \<not> truthy fetched then ret ()
      else
        let html = the fetched
        in bnd (of_result (cheerio_load P html)) (\<lambda>_.
           let redirect = (case js_match False rx_var_url html of
                             Some m \<Rightarrow> Some m
                           | None \<Rightarrow> (case js_match False rx_loc_replace html of
                                        Some m \<Rightarrow> Some m
                                      | None \<Rightarrow> js_match False rx_win_loc html))
           in bnd (if truthy (grp redirect 1)
                   then
                     let target = grp_str redirect 1;
                         target = (if str_includes target ''r=''
                                   then (let d = decodeBase64 P (at_index (split target ''r='') 1)
                                         in if d \<noteq> [] then d else target)
                                   else target);
                         target = (if startsWith target ''/'' then baseUrl @ target else target);
                         target = (if \<not> startsWith target ''http'' then baseUrl @ ''/'' @ target
                                   else target)
                     in bnd (xlog [LStr ''[HUBCLOUD REDIRECT]'', LStr target]) (\<lambda>_.
                        bnd (in_world (fetchHtml P target [])) (\<lambda>newHtml.
                        ret (if truthy newHtml then the newHtml else html)))
                   else ret html) (\<lambda>targetHtml.
              bnd (of_result (cheerio_load P targetHtml)) (\<lambda>target_doc.
              bnd (each hubcloud_selectors (\<lambda>sel.
                     bnd (of_result (cheerio_select P target_doc sel)) (\<lambda>els.
                     each els hubcloud_link))) (\<lambda>_.
              let directUrls = (case js_match_all True rx_media_url targetHtml of
                                  None \<Rightarrow> [] | Some ms \<Rightarrow> ms)
              in bnd (each directUrls
                        (direct_url (\<lambda>u. str_includes u ''example'' \<or> str_includes u ''sample''))) (\<lambda>_.
                 log_found ''[HUBCLOUD] Found:''))))))))"

definition gdflix_selectors :: "string list" where
  "gdflix_selectors =
     [''.btn-outline-success'', ''.btn-success'', ''.btn-danger'', ''.btn-primary'',
      ''a[href*=\"cloudflarestorage\"]'', ''a[href*=\"r2.dev\"]'', ''a[href*=\"pixeldrain\"]'',
      ''a[href*=\"workers.dev\"]'', ''a[href*=\"streamtape\"]'', ''a[href*=\"dood\"]'',
      ''a[href*=\"filemoon\"]'', ''a[href*=\"mixdrop\"]'']"

text \<open>The callback of \<^verbatim>\<open>$(sel).each\<close> in \<^verbatim>\<open>gdflixExtractor\<close> (lines 487-508).\<close>

definition gdflix_link :: "string \<Rightarrow> element \<Rightarrow> (unit, 'e xstate) js" where
  "gdflix_link baseUrl el = bnd get (\<lambda>x.
     let h = (if truthy (href el) then the (href el) else []);
         txt = toLowerCase (el_text el)
     in if h = [] \<or> h = ''#'' \<or> h \<in> set (processed x)
        then ret ()
        else
          (bnd (processed_add h) (\<lambda>_.
           bnd (xlog [LStr ''[GDFLIX LINK]'', LStr (take 80 h)]) (\<lambda>_.
           if str_includes h ''cloudflarestorage'' \<or> str_includes h ''r2.dev''
             then push (hd_candidate ''R2Storage'' h Mkv)
           else if str_includes h ''pixeldrain''
             then
               let token = last_segment h;
                   directUrl = (if truthy token
                                then ''https://pixeldrain.com/api/file/'' @ the token @ ''?download''
                                else h)
               in push (hd_candidate ''Pixeldrain'' directUrl Mkv)
           else if str_includes h ''workers.dev''
             then push (hd_candidate ''CfWorker'' h Mkv)
           else if str_includes txt ''fast'' \<or> str_includes txt ''gdrive''
             then push (hd_candidate ''FastDL'' (if startsWith h ''http'' then h else baseUrl @ h) Mkv)
           else ret ()))))"

text \<open>The callback of \<^verbatim>\<open>$("a[href^='http']").each\<close> (lines 523-540).\<close>

definition gdflix_embed :: "element \<Rightarrow> (unit, 'e xstate) js" where
  "gdflix_embed el = bnd get (\<lambda>x.
     let h = (if truthy (href el) then the (href el) else [])
     in if h \<in> set (processed x) then ret ()
        else if str_includes h ''streamtape''
          then bnd (processed_add h) (\<lambda>_. push (hd_candidate ''Streamtape'' h Mp4))
        else if str_includes h ''dood''
          then bnd (processed_add h) (\<lambda>_. push (hd_candidate ''Doodstream'' h Mp4))
        else if str_includes h ''filemoon''
          then bnd (processed_add h) (\<lambda>_. push (hd_candidate ''Filemoon'' h M3u8))
        else if str_includes h ''mixdrop''
          then bnd (processed_add h) (\<lambda>_. push (hd_candidate ''Mixdrop'' h Mp4))
        else ret ())"

text \<open>\<^verbatim>\<open>$(sel).attr("href")\<close>: the attribute of the first element selected.\<close>

definition first_href :: "('e, 'd) prims \<Rightarrow> 'd \<Rightarrow> string \<Rightarrow> (string option, 's) js" where
  "first_href P doc sel =
     bnd (of_result (cheerio_select P doc sel))
         (\<lambda>els. ret (case els of [] \<Rightarrow> None | el # _ \<Rightarrow> href el))"

text \<open>\<^verbatim>\<open>a || b || ...\<close> over selections, evaluated left to right until one is truthy.\<close>

fun first_truthy :: "(string option, 's) js list \<Rightarrow> (string option, 's) js" where
  "first_truthy [] = ret None"
| "first_truthy [m] = m"
| "first_truthy (m # ms) = bnd m (\<lambda>v. if truthy v then ret v else first_truthy ms)"

definition gdflixExtractor :: "('e, 'd) prims \<Rightarrow> string \<Rightarrow> (StreamLink list, 'e world) js" where
  "gdflixExtractor P url = extractor ''[GDFLIX ERROR]''
     (bnd (xlog [LStr ''[GDFLIX]'', LStr url]) (\<lambda>_.
      let baseUrl = baseUrl_of url
      in bnd (in_world (fetchHtml P url [])) (\<lambda>fetched.
      if \<not> truthy fetched then ret ()
      else
        let html = the fetched
        in bnd (of_result (cheerio_load P html)) (\<lambda>doc0.
           let redirect = (case js_match False rx_loc_replace html of
                             Some m \<Rightarrow> Some m
                           | None \<Rightarrow> js_match False rx_win_loc html)
           in bnd (if truthy (grp redirect 1)
                   then
                     let target = (if startsWith (grp_str redirect 1) ''http''
                                   then grp_str redirect 1 else baseUrl @ grp_str redirect 1)
                     in bnd (xlog [LStr ''[GDFLIX REDIRECT]'', LStr target]) (\<lambda>_.
                        bnd (in_world (fetchHtml P target [])) (\<lambda>newHtml.
                        if truthy newHtml then of_result (cheerio_load P (the newHtml))
                        else ret doc0))
                   else ret doc0) (\<lambda>doc.
              bnd (each gdflix_selectors (\<lambda>sel.
                     bnd (of_result (cheerio_select P doc sel)) (\<lambda>els.
                     each els (gdflix_link baseUrl)))) (\<lambda>_.
              bnd (first_truthy
                     [first_href P doc ''a:contains(\"V-Cloud\")'',
                      first_href P doc ''a:contains(\"HubCloud\")'',
                      first_href P doc ''a:contains(\"Hub-Cloud\")'',
                      first_href P doc ''a[href*=\"hubcloud\"]'',
                      first_href P doc ''a[href*=\"vcloud\"]'']) (\<lambda>hubLink.
              bnd (bnd get (\<lambda>x.
                   if truthy hubLink \<and> the hubLink \<notin> set (processed x)
                   then bnd (xlog [LStr ''[GDFLIX -> HUBCLOUD]'', LStr (the hubLink)]) (\<lambda>_.
                        bnd (in_world (hubcloudExtractor P (the hubLink))) (\<lambda>hubStreams.
                        push_all hubStreams))
                   else ret ())) (\<lambda>_.
              bnd (of_result (cheerio_select P doc ''a[href^='http']'')) (\<lambda>els.
              bnd (each els gdflix_embed) (\<lambda>_.
              bnd (of_result (cheerio_html P doc)) (\<lambda>page.
              let directUrls = (case page of
                                  None \<Rightarrow> []
                                | Some t \<Rightarrow> (case js_match_all True rx_media_url t of
                                              None \<Rightarrow> [] | Some ms \<Rightarrow> ms))
              in bnd (each directUrls (direct_url (\<lambda>u. str_includes u ''example''))) (\<lambda>_.
                 log_found ''[GDFLIX] Found:''))))))))))))"


section \<open>The orchestrator: \<^verbatim>\<open>resolveLink\<close> (lines 558-628)\<close>

definition getCachedStreams :: "('e, 'd) prims \<Rightarrow> string \<Rightarrow> (StreamLink list CacheHit option, 'e world) js" where
  \<comment> \<open>\<^verbatim>\<open>getCached(cache.streams, url, CACHE_TTL.streams)\<close>\<close>
  "getCachedStreams P url =
     (\<lambda>w. case getCached P (cache_streams w) url CACHE_TTL_streams (env w) of
             (r, e') \<Rightarrow> (Inr r, w\<lparr>env := e'\<rparr>))"

definition setCacheStreams :: "('e, 'd) prims \<Rightarrow> string \<Rightarrow> StreamLink list \<Rightarrow> (unit, 'e world) js" where
  \<comment> \<open>\<^verbatim>\<open>setCache(cache.streams, url, finalStreams)\<close>\<close>
  "setCacheStreams P url dat =
     (\<lambda>w. case setCache P (cache_streams w) url dat (env w) of
             (m', e') \<Rightarrow> (Inr (), w\<lparr>env := e', cache_streams := m'\<rparr>))"

text \<open>Lines 562-584: the extractor is chosen by the first marker the lower-cased URL
  holds.\<close>

definition extractByHost :: "('e, 'd) prims \<Rightarrow> string \<Rightarrow> (StreamLink list, 'e world) js" where
  "extractByHost P url =
     (let lowerUrl = toLowerCase url
      in if str_includes lowerUrl ''pixeldrain'' then pixeldrainExtractor P url
         else if str_includes lowerUrl ''streamtape'' then streamtapeExtractor P url
         else if str_includes lowerUrl ''dood'' then doodstreamExtractor P url
         else if str_includes lowerUrl ''filemoon'' then filemoonExtractor P url
         else if str_includes lowerUrl ''mixdrop'' then mixdropExtractor P url
         else if str_includes lowerUrl ''gdflix'' \<or> str_includes lowerUrl ''nexdrive''
           then gdflixExtractor P url
         else if str_includes lowerUrl ''hubcloud'' \<or> str_includes lowerUrl ''vcloud''
           then hubcloudExtractor P url
         else bnd (hubcloudExtractor P url) (\<lambda>streams.
                if length streams = 0 then gdflixExtractor P url else ret streams))"

text \<open>Lines 586-619: the loop over \<^verbatim>\<open>streams\<close>; the second argument is
  \<^verbatim>\<open>deepResolved\<close>.\<close>

fun deepResolve ::
  "('e, 'd) prims \<Rightarrow> StreamLink list \<Rightarrow> StreamLink list \<Rightarrow> (StreamLink list, 'e world) js"
where
  "deepResolve P [] deepResolved = ret deepResolved"
| "deepResolve P (stream # rest) deepResolved =
     (if server stream = ''Streamtape'' \<and> \<not> str_includes (link stream) ''get_video''
        then bnd (streamtapeExtractor P (link stream)) (\<lambda>resolved.
               if length resolved > 0 then deepResolve P rest (deepResolved @ resolved)
               else deepResolve P rest (deepResolved @ [stream]))
      else if server stream = ''Doodstream'' \<and> \<not> str_includes (link stream) ''pass_md5''
        then bnd (doodstreamExtractor P (link stream)) (\<lambda>resolved.
               if length resolved > 0 then deepResolve P rest (deepResolved @ resolved)
               else deepResolve P rest (deepResolved @ [stream]))
      else if server stream = ''Filemoon'' \<and> \<not> str_includes (link stream) ''.m3u8''
        then bnd (filemoonExtractor P (link stream)) (\<lambda>resolved.
               if length resolved > 0 then deepResolve P rest (deepResolved @ resolved)
               else deepResolve P rest (deepResolved @ [stream]))
      else if server stream = ''Mixdrop'' \<and> \<not> str_includes (link stream) ''delivery''
        then bnd (mixdropExtractor P (link stream)) (\<lambda>resolved.
               if length resolved > 0 then deepResolve P rest (deepResolved @ resolved)
               else deepResolve P rest (deepResolved @ [stream]))
      else deepResolve P rest (deepResolved @ [stream]))"

text \<open>Lines 586-627: what \<^verbatim>\<open>resolveLink\<close> does with the \<^verbatim>\<open>streams\<close> of the
  chosen extractor.\<close>

definition finishResolve ::
  "('e, 'd) prims \<Rightarrow> string \<Rightarrow> StreamLink list \<Rightarrow> (StreamLink list, 'e world) js"
where
  "finishResolve P url extracted =
     bnd (deepResolve P extracted []) (\<lambda>deepResolved.
     let finalStreams = (if length deepResolved > 0 then deepResolved else extracted)
     in bnd (if length finalStreams > 0 then setCacheStreams P url finalStreams else ret ()) (\<lambda>_.
        ret finalStreams))"

definition resolveLink :: "('e, 'd) prims \<Rightarrow> string \<Rightarrow> (StreamLink list, 'e world) js" where
  "resolveLink P url =
     bnd (getCachedStreams P url) (\<lambda>hit.
     case hit of
       Some c \<Rightarrow> ret (hit_data c)
     | None \<Rightarrow> bnd (extractByHost P url) (finishResolve P url))"


section \<open>Vocabulary of the statements\<close>

text \<open>
  \<open>extends Q w w'\<close>: from \<open>w\<close> to \<open>w'\<close> the stream cache is unchanged and the console has
  only grown, by lines that satisfy \<open>Q\<close>. \<open>pres prj Q m\<close>: the computation \<open>m\<close> only ever
  takes the world (the \<open>prj\<close> part of its state) to one that extends it.
\<close>

definition extends :: "(logline \<Rightarrow> bool) \<Rightarrow> 'e world \<Rightarrow> 'e world \<Rightarrow> bool" where
  "extends Q w w' =
     (cache_streams w' = cache_streams w \<and> (\<exists>new. console w' = console w @ new \<and> list_all Q new))"

definition pres :: "('s \<Rightarrow> 'e world) \<Rightarrow> (logline \<Rightarrow> bool) \<Rightarrow> ('a, 's) js \<Rightarrow> bool" where
  "pres prj Q m = (\<forall>s. extends Q (prj s) (prj (snd (m s))))"

text \<open>\<open>enters Q line w w'\<close>: as \<open>extends\<close>, and the first new line of the console is
  \<open>line\<close>.\<close>

definition enters :: "(logline \<Rightarrow> bool) \<Rightarrow> logline \<Rightarrow> 'e world \<Rightarrow> 'e world \<Rightarrow> bool" where
  "enters Q line w w' =
     (cache_streams w' = cache_streams w \<and>
      (\<exists>new. console w' = console w @ line # new \<and> list_all Q new))"

text \<open>The line an extractor logs first, \<^verbatim>\<open>console.log("[TAG]", url)\<close>: the trace of its
  invocation.\<close>

definition is_call :: "logline \<Rightarrow> bool" where
  "is_call l = (\<exists>tag u. l = Log [LStr tag, LStr u] \<and>
      tag \<in> {''[PIXELDRAIN]'', ''[STREAMTAPE]'', ''[DOODSTREAM]'', ''[FILEMOON]'', ''[MIXDROP]'',
               ''[HUBCLOUD]'', ''[GDFLIX]''})"

text \<open>What one iteration of the deep-resolve loop pushes to \<^verbatim>\<open>deepResolved\<close> for the
  candidate \<open>c\<close>.\<close>

definition replacement :: "('e, 'd) prims \<Rightarrow> StreamLink \<Rightarrow> (StreamLink list, 'e world) js" where
  "replacement P c =
     (if server c = ''Streamtape'' \<and> \<not> str_includes (link c) ''get_video''
        then bnd (streamtapeExtractor P (link c)) (\<lambda>r. ret (if length r > 0 then r else [c]))
      else if server c = ''Doodstream'' \<and> \<not> str_includes (link c) ''pass_md5''
        then bnd (doodstreamExtractor P (link c)) (\<lambda>r. ret (if length r > 0 then r else [c]))
      else if server c = ''Filemoon'' \<and> \<not> str_includes (link c) ''.m3u8''
        then bnd (filemoonExtractor P (link c)) (\<lambda>r. ret (if length r > 0 then r else [c]))
      else if server c = ''Mixdrop'' \<and> \<not> str_includes (link c) ''delivery''
        then bnd (mixdropExtractor P (link c)) (\<lambda>r. ret (if length r > 0 then r else [c]))
      else ret [c])"

text \<open>That the page fetch of an extractor succeeds with the body \<open>html\<close>, and that the
  document cheerio loads from a page serialises to a text without a media URL.\<close>

definition page_is :: "('e, 'd) prims \<Rightarrow> string \<Rightarrow> 'e \<Rightarrow> string \<Rightarrow> bool" where
  "page_is P url e html =
     (case fst (fetch P \<lparr>req_url = url, req_headers = spread defaultHeaders [],
                          req_timeout = Some 15000\<rparr> e) of
        Inl err \<Rightarrow> False
      | Inr res \<Rightarrow> ok res \<and> res_text res = Inr html)"

definition no_media_in_document :: "('e, 'd) prims \<Rightarrow> string \<Rightarrow> bool" where
  "no_media_in_document P html =
     (case cheerio_load P html of
        Inl e \<Rightarrow> True
      | Inr d \<Rightarrow> (case cheerio_html P d of
                   Inl e \<Rightarrow> True
                 | Inr None \<Rightarrow> True
                 | Inr (Some t) \<Rightarrow> js_match_all True rx_media_url t = None))"

text \<open>The host classification as the specification words it: an ordered table of markers,
  the first one found in the lower-cased URL wins.\<close>

datatype host = Pixeldrain | Streamtape | Doodstream | Filemoon | Mixdrop | Gdflix | Hubcloud

definition markers :: "(string \<times> host) list" where
  "markers =
     [(''pixeldrain'', Pixeldrain), (''streamtape'', Streamtape), (''dood'', Doodstream),
      (''filemoon'', Filemoon), (''mixdrop'', Mixdrop), (''gdflix'', Gdflix),
      (''nexdrive'', Gdflix), (''hubcloud'', Hubcloud), (''vcloud'', Hubcloud)]"

definition classify :: "string \<Rightarrow> host option" where
  "classify url = map_option snd (find (\<lambda>mh. str_includes (toLowerCase url) (fst mh)) markers)"

fun extractor_of :: "host \<Rightarrow> ('e, 'd) prims \<Rightarrow> string \<Rightarrow> (StreamLink list, 'e world) js" where
  "extractor_of Pixeldrain = pixeldrainExtractor"
| "extractor_of Streamtape = streamtapeExtractor"
| "extractor_of Doodstream = doodstreamExtractor"
| "extractor_of Filemoon = filemoonExtractor"
| "extractor_of Mixdrop = mixdropExtractor"
| "extractor_of Gdflix = gdflixExtractor"
| "extractor_of Hubcloud = hubcloudExtractor"

text \<open>The tag of the line each extractor logs first, and the tags of the four embed hosts
  the deep-resolve loop invokes.\<close>

fun tag_of :: "host \<Rightarrow> string" where
  "tag_of Pixeldrain = ''[PIXELDRAIN]''"
| "tag_of Streamtape = ''[STREAMTAPE]''"
| "tag_of Doodstream = ''[DOODSTREAM]''"
| "tag_of Filemoon = ''[FILEMOON]''"
| "tag_of Mixdrop = ''[MIXDROP]''"
| "tag_of Gdflix = ''[GDFLIX]''"
| "tag_of Hubcloud = ''[HUBCLOUD]''"

definition embed_tags :: "string set" where
  "embed_tags = {''[STREAMTAPE]'', ''[DOODSTREAM]'', ''[FILEMOON]'', ''[MIXDROP]''}"

text \<open>That the page fetch of an extractor fails: \<^verbatim>\<open>fetchHtml(url)\<close> gives \<^verbatim>\<open>null\<close>
  because \<open>fetch\<close> throws, the status is not ok, or reading the body throws.\<close>

definition page_fetch_fails :: "('e, 'd) prims \<Rightarrow> string \<Rightarrow> 'e \<Rightarrow> bool" where
  "page_fetch_fails P url e =
     (case fst (fetch P \<lparr>req_url = url, req_headers = spread defaultHeaders [],
                          req_timeout = Some 15000\<rparr> e) of
        Inl err \<Rightarrow> True
      | Inr res \<Rightarrow> \<not> ok res \<or> isl (res_text res))"

text \<open>
  The metadata request of \<^verbatim>\<open>pixeldrainExtractor\<close> for the file id \<open>fid\<close>. That it fails:
  \<open>fetch\<close> throws, the status is not ok, or parsing the body throws (\<^verbatim>\<open>fetchJson\<close> then
  gives \<^verbatim>\<open>null\<close>). And the JSON value it answers with otherwise.
\<close>

definition info_request :: "string \<Rightarrow> request" where
  "info_request fid =
     \<lparr>req_url = ''https://pixeldrain.com/api/file/'' @ fid @ ''/info'',
      req_headers = spread defaultHeaders [], req_timeout = None\<rparr>"

definition metadata_fetch_fails :: "('e, 'd) prims \<Rightarrow> string \<Rightarrow> 'e \<Rightarrow> bool" where
  "metadata_fetch_fails P fid e =
     (case fst (fetch P (info_request fid) e) of
        Inl err \<Rightarrow> True
      | Inr res \<Rightarrow> \<not> ok res \<or> isl (res_json res))"

definition metadata_is :: "('e, 'd) prims \<Rightarrow> string \<Rightarrow> 'e \<Rightarrow> json \<Rightarrow> bool" where
  "metadata_is P fid e info =
     (case fst (fetch P (info_request fid) e) of
        Inl err \<Rightarrow> False
      | Inr res \<Rightarrow> ok res \<and> res_json res = Inr info)"

text \<open>The file id \<^verbatim>\<open>pixeldrainExtractor\<close> reads from the URL (lines 172-173).\<close>

definition file_id :: "string \<Rightarrow> string option" where
  "file_id url = js_or (grp (js_match False rx_pd_u url) 1) (grp (js_match False rx_pd_api url) 1)"

text \<open>
  That none of the selectors \<open>sels\<close> selects an element in the document cheerio loads from
  the page \<open>html\<close> (other documents, and other selectors, are free). The selectors
  \<^verbatim>\<open>gdflixExtractor\<close> queries: its list, the five of \<^verbatim>\<open>hubLink\<close> and the one of the
  embed links.
\<close>

definition selects_nothing :: "('e, 'd) prims \<Rightarrow> string \<Rightarrow> string list \<Rightarrow> bool" where
  "selects_nothing P html sels =
     (case cheerio_load P html of
        Inl e \<Rightarrow> True
      | Inr d \<Rightarrow> list_all (\<lambda>sel. cheerio_select P d sel = Inr []) sels)"

definition gdflix_queries :: "string list" where
  "gdflix_queries =
     gdflix_selectors @
     [''a:contains(\"V-Cloud\")'', ''a:contains(\"HubCloud\")'', ''a:contains(\"Hub-Cloud\")'',
      ''a[href*=\"hubcloud\"]'', ''a[href*=\"vcloud\"]'', ''a[href^='http']'']"


section \<open>Concrete environments\<close>

text \<open>A clock that ticks at every reading, a network that is down.\<close>

definition offline :: "(int, unit) prims" where
  "offline =
     \<lparr>date_now = (\<lambda>t. (t, t + 1)),
      random36 = (\<lambda>t. (''4fzyo82mvyr'', t)),
      fetch = (\<lambda>req t. (Inl (Error ''fetch failed''), t)),
      atob = (\<lambda>s. Inl (Error ''InvalidCharacterError'')),
      cheerio_load = (\<lambda>h. Inr ()),
      cheerio_select = (\<lambda>d sel. Inr []),
      cheerio_html = (\<lambda>d. Inr None)\<rparr>"

text \<open>A network that serves the given pages (URL and body) and answers 404 elsewhere (the
  pages are not JSON: parsing one throws); the cheerio document is the page text, and a
  selector yields the elements listed for it in that document.\<close>

definition serving :: "(string \<times> string) list \<Rightarrow> ((string \<times> string) \<times> element list) list \<Rightarrow> (int, string) prims" where
  "serving pages els =
     \<lparr>date_now = (\<lambda>t. (t, t + 1)),
      random36 = (\<lambda>t. (''4fzyo82mvyr'', t)),
      fetch = (\<lambda>req t.
        (case map_of pages (req_url req) of
           None \<Rightarrow> Inr \<lparr>ok = False, res_text = Inr [], res_json = Inl (Error ''SyntaxError'')\<rparr>
         | Some body \<Rightarrow> Inr \<lparr>ok = True, res_text = Inr body, res_json = Inl (Error ''SyntaxError'')\<rparr>, t)),
      atob = (\<lambda>s. Inl (Error ''InvalidCharacterError'')),
      cheerio_load = (\<lambda>h. Inr h),
      cheerio_select = (\<lambda>d sel. Inr (case map_of els (d, sel) of None \<Rightarrow> [] | Some es \<Rightarrow> es)),
      cheerio_html = (\<lambda>d. Inr (Some d))\<rparr>"

text \<open>A network whose every answer is ok and carries the JSON value \<open>info\<close>: the metadata
  endpoint of the file host, answering \<open>info\<close>.\<close>

definition answering :: "json \<Rightarrow> (int, unit) prims" where
  "answering info =
     \<lparr>date_now = (\<lambda>t. (t, t + 1)),
      random36 = (\<lambda>t. (''4fzyo82mvyr'', t)),
      fetch = (\<lambda>req t. (Inr \<lparr>ok = True, res_text = Inr [], res_json = Inr info\<rparr>, t)),
      atob = (\<lambda>s. Inl (Error ''InvalidCharacterError'')),
      cheerio_load = (\<lambda>h. Inr ()),
      cheerio_select = (\<lambda>d sel. Inr []),
      cheerio_html = (\<lambda>d. Inr None)\<rparr>"

text \<open>Two answers of the metadata endpoint: one as the call site declares it, one whose
  \<^verbatim>\<open>mime_type\<close> is a number.\<close>

definition video_info :: json where
  "video_info =
     JObject [(''name'', JString ''movie.mp4''), (''size'', JNumber ''1048576''),
              (''mime_type'', JString ''video/mp4'')]"

definition odd_info :: json where
  "odd_info =
     JObject [(''name'', JString ''movie.mp4''), (''size'', JNumber ''1048576''),
              (''mime_type'', JNumber ''42'')]"

definition world0 :: "int world" where
  "world0 = \<lparr>env = 0, console = [], cache_streams = []\<rparr>"

text \<open>A Streamtape embed page.\<close>

definition streamtape_page :: string where
  "streamtape_page =
     ''<script>document.getElementById('robotlink').innerHTML = '//streamtape.com/get_video?id=abc&expires=1';</script>''"

text \<open>A page with none of the patterns the extractors look for; a Filemoon player page
  whose source is a path; a link-aggregator page whose button is a path.\<close>

definition blank_page :: string where
  "blank_page = ''<html><body>Not found</body></html>''"

definition filemoon_page :: string where
  "filemoon_page = ''<script>jwplayer().setup({sources:[{file:\"/hls/abc/master.m3u8\"}]});</script>''"

definition hubcloud_page :: string where
  "hubcloud_page = ''<a class=\"btn-success\" href=\"/dl/movie.mkv\">Download</a>''"

definition aggregator_site :: "(int, string) prims" where
  "aggregator_site =
     serving [(''https://example.org/drive/abc'', hubcloud_page),
              (''https://hubcloud.one/drive/abc'', hubcloud_page)]
       [((hubcloud_page, ''.btn-success''), [\<lparr>href = Some ''/dl/movie.mkv'', el_text = ''Download''\<rparr>]),
        ((hubcloud_page, ''a[href*=\".mkv\"]''), [\<lparr>href = Some ''/dl/movie.mkv'', el_text = ''Download''\<rparr>])]"

text \<open>A site with the blank page and, beside it, the aggregator page, in whose document
  cheerio does select elements.\<close>

definition blank_site :: "(int, string) prims" where
  "blank_site =
     serving [(''https://example.com/x'', blank_page),
              (''https://example.com/drive/abc'', hubcloud_page)]
       [((hubcloud_page, ''.btn-success''), [\<lparr>href = Some ''/dl/movie.mkv'', el_text = ''Download''\<rparr>]),
        ((hubcloud_page, ''a[href*=\".mkv\"]''), [\<lparr>href = Some ''/dl/movie.mkv'', el_text = ''Download''\<rparr>])]"

text \<open>A run of \<^verbatim>\<open>setCache\<close> calls on one map, one per key.\<close>

fun put_all ::
  "('e, 'd) prims \<Rightarrow> string list \<Rightarrow> 'a \<Rightarrow> (string, 'a CacheEntry) js_map \<Rightarrow> 'e
     \<Rightarrow> (string, 'a CacheEntry) js_map \<times> 'e"
where
  "put_all P [] dat m e = (m, e)"
| "put_all P (k # ks) dat m e =
     (case setCache P m k dat e of (m', e') \<Rightarrow> put_all P ks dat m' e')"

definition key_of :: "nat \<Rightarrow> string" where
  "key_of n = replicate n CHR ''k''"


section \<open>The cache\<close>

lemma map_set_fresh: "k \<notin> fst ` set m \<Longrightarrow> map_set m k v = m @ [(k, v)]"
  by (simp add: map_set_def)

lemma map_get_set_same: "map_get (map_set m k v) k = Some v"
proof (cases "k \<in> fst ` set m")
  case True
  then have "map_of (map (\<lambda>kv. if fst kv = k then (k, v) else kv) m) k = Some v"
    by (induction m) auto
  with True show ?thesis by (simp add: map_get_def map_set_def)
next
  case False
  then have "map_of m k = None" by (simp add: map_of_eq_None_iff)
  with False show ?thesis by (simp add: map_get_def map_set_def map_add_def)
qed

lemma map_get_delete_same: "map_get (map_delete m k) k = None"
  by (induction m) (auto simp: map_get_def map_delete_def)

lemma map_size_set_le: "map_size (map_set m k v) \<le> Suc (map_size m)"
  by (simp add: map_set_def map_size_def)

lemma map_size_delete_mem:
  "kv \<in> set m \<Longrightarrow> map_size (map_delete m (fst kv)) < map_size m"
  unfolding map_size_def map_delete_def
  by (rule length_filter_less [of kv]) auto

lemma setCache_small:
  "map_size m \<le> 1000 \<Longrightarrow>
   fst (setCache P m k d e) = map_set m k \<lparr>data = d, timestamp = fst (date_now P e)\<rparr>"
  by (simp add: setCache_def split: prod.splits)

lemma setCache_entry:
  "map_get (fst (setCache P m k d e)) k = Some \<lparr>data = d, timestamp = fst (date_now P e)\<rparr>"
  by (simp add: setCache_def Let_def map_get_set_same split: prod.splits)

text \<open>What the code does keep: a map of at most 1001 entries stays at most 1001.\<close>

lemma setCache_bound:
  assumes "map_size m \<le> 1001"
  shows "map_size (fst (setCache P m k d e)) \<le> 1001"
proof (cases "map_size m > 1000")
  case False
  then have "map_size (fst (setCache P m k d e)) \<le> Suc (map_size m)"
    by (simp add: setCache_def Let_def map_size_set_le split: prod.splits)
  with False show ?thesis by simp
next
  case True
  then have "m \<noteq> []"
    by (auto simp: map_size_def)
  then have ne: "sort_key (\<lambda>kv. timestamp (snd kv)) m \<noteq> []"
    by (metis length_sort length_0_conv)
  then obtain oldest rest where srt: "sort_key (\<lambda>kv. timestamp (snd kv)) m = oldest # rest"
    by (cases "sort_key (\<lambda>kv. timestamp (snd kv)) m") auto
  have "oldest \<in> set (sort_key (\<lambda>kv. timestamp (snd kv)) m)" by (simp add: srt)
  then have mem: "oldest \<in> set m" by simp
  have a: "map_size (map_delete m (fst oldest)) \<le> 1000"
    using map_size_delete_mem [OF mem] assms by simp
  have eq: "fst (setCache P m k d e)
      = map_set (map_delete m (fst oldest)) k \<lparr>data = d, timestamp = fst (date_now P e)\<rparr>"
    using True by (simp add: setCache_def Let_def srt split: prod.splits)
  have b: "map_size (map_set (map_delete m (fst oldest)) k \<lparr>data = d, timestamp = fst (date_now P e)\<rparr>)
      \<le> Suc (map_size (map_delete m (fst oldest)))"
    by (rule map_size_set_le)
  show ?thesis unfolding eq using a b by linarith
qed

text \<open>When it evicts, \<^verbatim>\<open>setCache\<close> evicts an entry with the least timestamp.\<close>

lemma setCache_evicts_oldest:
  assumes "map_size m > 1000"
  shows "\<exists>oldest \<in> set m.
           (\<forall>kv \<in> set m. timestamp (snd oldest) \<le> timestamp (snd kv))
         \<and> fst (setCache P m k d e)
             = map_set (map_delete m (fst oldest)) k \<lparr>data = d, timestamp = fst (date_now P e)\<rparr>"
proof -
  let ?f = "\<lambda>kv. timestamp (snd kv)"
  from assms have "m \<noteq> []" by (auto simp: map_size_def)
  then have "sort_key ?f m \<noteq> []" by (metis length_sort length_0_conv)
  then obtain oldest rest where srt: "sort_key ?f m = oldest # rest"
    by (cases "sort_key ?f m") auto
  have "oldest \<in> set (sort_key ?f m)" by (simp add: srt)
  then have mem: "oldest \<in> set m" by simp
  have "sorted (map ?f (sort_key ?f m))" by (rule sorted_sort_key)
  then have "\<forall>kv \<in> set rest. ?f oldest \<le> ?f kv" by (simp add: srt)
  moreover have "set m = set (oldest # rest)" by (metis srt set_sort)
  ultimately have least: "\<forall>kv \<in> set m. ?f oldest \<le> ?f kv" by auto
  have "fst (setCache P m k d e)
      = map_set (map_delete m (fst oldest)) k \<lparr>data = d, timestamp = fst (date_now P e)\<rparr>"
    using assms by (simp add: setCache_def Let_def srt split: prod.splits)
  with mem least show ?thesis by blast
qed

lemma put_all_fresh:
  "distinct ks \<Longrightarrow> set ks \<inter> fst ` set m = {} \<Longrightarrow> map_size m + length ks \<le> 1001 \<Longrightarrow>
   map_size (fst (put_all P ks d m e)) = map_size m + length ks"
proof (induction ks arbitrary: m e)
  case Nil
  then show ?case by simp
next
  case (Cons k ks)
  obtain m' e' where sc: "setCache P m k d e = (m', e')" by (cases "setCache P m k d e")
  from Cons.prems have small: "map_size m \<le> 1000" and fresh: "k \<notin> fst ` set m" by auto
  have m': "m' = m @ [(k, \<lparr>data = d, timestamp = fst (date_now P e)\<rparr>)]"
    using setCache_small [OF small, of P k d e] sc map_set_fresh [OF fresh] by simp
  have "map_size (fst (put_all P ks d m' e')) = map_size m' + length ks"
    using Cons.prems by (intro Cons.IH) (auto simp: m' map_size_def)
  then show ?case by (simp add: sc m' map_size_def)
qed

lemma key_of_inj: "inj key_of"
  by (rule injI) (metis key_of_def length_replicate)

text \<open>
  Claim C1. The claim: after every \<^verbatim>\<open>setCache\<close> call on one map the map holds at most
  1000 entries. The code tests \<^verbatim>\<open>map.size > 1000\<close> before the insert, so it evicts only
  once the map already holds 1001 entries: 1001 calls with the distinct keys \<open>""\<close>, \<open>"k"\<close>,
  \<open>"kk"\<close>, ... on the empty map leave 1001 entries.
\<close>

theorem cache_size_1001:
  "map_size (fst (put_all offline (map key_of [0 ..< 1001]) () [] 0)) = 1001"
proof -
  have "distinct (map key_of [0 ..< 1001])"
    by (simp add: distinct_map inj_on_def key_of_inj [THEN injD])
  then show ?thesis
    using put_all_fresh [where ks = "map key_of [0 ..< 1001]" and m = "[]" and d = "()"
        and P = offline and e = 0]
    by (simp add: map_size_def)
qed

text \<open>
  Claim C3. A \<^verbatim>\<open>getCached\<close> of the key \<open>k\<close> after a \<^verbatim>\<open>setCache\<close> of \<open>k\<close> returns the
  stored value exactly when the clock reading of the get, minus the clock reading of the put,
  is strictly less than the TTL, and returns \<^verbatim>\<open>null\<close> otherwise, which is what it returns
  when the key is absent; the entry is in the map whatever the time. In any map, the answer
  depends on the entry at the key and the clock alone.
\<close>

theorem cache_freshness:
  "fst (getCached P (fst (setCache P m k d e0)) k ttl e1) =
     (if fst (date_now P e1) - fst (date_now P e0) < ttl
      then Some \<lparr>hit_data = d, cached = True\<rparr> else None)
   \<and> fst (getCached P (map_delete (fst (setCache P m k d e0)) k) k ttl e1) = None
   \<and> map_get (fst (setCache P m k d e0)) k = Some \<lparr>data = d, timestamp = fst (date_now P e0)\<rparr>
   \<and> fst (getCached P m k ttl e1) =
       (case map_get m k of
          None \<Rightarrow> None
        | Some entry \<Rightarrow>
            if fst (date_now P e1) - timestamp entry < ttl
            then Some \<lparr>hit_data = data entry, cached = True\<rparr> else None)"
  by (simp add: getCached_def setCache_entry map_get_delete_same split: prod.splits option.splits)


section \<open>What a computation leaves unchanged\<close>

lemma extends_refl: "extends Q w w"
  by (simp add: extends_def)

lemma extends_trans: "extends Q a b \<Longrightarrow> extends Q b c \<Longrightarrow> extends Q a c"
  by (auto simp: extends_def)

named_theorems pres_intros

lemma pres_ret [pres_intros]: "pres prj Q (ret x)"
  by (simp add: pres_def ret_def extends_refl)

lemma pres_get [pres_intros]: "pres prj Q get"
  by (simp add: pres_def get_def extends_refl)

lemma pres_of_result [pres_intros]: "pres prj Q (of_result r)"
  by (simp add: pres_def of_result_def extends_refl)

lemma pres_bnd [pres_intros]:
  assumes "pres prj Q m" and "\<And>x. pres prj Q (f x)"
  shows "pres prj Q (bnd m f)"
proof -
  have "extends Q (prj s) (prj (snd (bnd m f s)))" for s
  proof (cases "m s")
    case (Pair r s')
    have a: "extends Q (prj s) (prj s')" using assms(1) Pair by (auto simp: pres_def dest: spec [of _ s])
    show ?thesis
    proof (cases r)
      case (Inl e)
      with Pair a show ?thesis by (simp add: bnd_def)
    next
      case (Inr x)
      have "extends Q (prj s') (prj (snd (f x s')))" using assms(2) by (simp add: pres_def)
      with a have "extends Q (prj s) (prj (snd (f x s')))" by (rule extends_trans)
      with Pair Inr show ?thesis by (simp add: bnd_def)
    qed
  qed
  then show ?thesis by (simp add: pres_def)
qed

lemma pres_try_catch [pres_intros]:
  assumes "pres prj Q m" and "\<And>e. pres prj Q (h e)"
  shows "pres prj Q (try_catch m h)"
proof -
  have "extends Q (prj s) (prj (snd (try_catch m h s)))" for s
  proof (cases "m s")
    case (Pair r s')
    have a: "extends Q (prj s) (prj s')" using assms(1) Pair by (auto simp: pres_def dest: spec [of _ s])
    show ?thesis
    proof (cases r)
      case (Inr x)
      with Pair a show ?thesis by (simp add: try_catch_def)
    next
      case (Inl e)
      have "extends Q (prj s') (prj (snd (h e s')))" using assms(2) by (simp add: pres_def)
      with a have "extends Q (prj s) (prj (snd (h e s')))" by (rule extends_trans)
      with Pair Inl show ?thesis by (simp add: try_catch_def)
    qed
  qed
  then show ?thesis by (simp add: pres_def)
qed

lemma pres_each [pres_intros]:
  assumes "\<And>x. pres prj Q (f x)"
  shows "pres prj Q (each xs f)"
  by (induction xs) (auto intro!: pres_ret pres_bnd assms)

lemma pres_if [pres_intros]:
  "(c \<Longrightarrow> pres prj Q a) \<Longrightarrow> (\<not> c \<Longrightarrow> pres prj Q b) \<Longrightarrow> pres prj Q (if c then a else b)"
  by simp

lemma pres_Let [pres_intros]: "pres prj Q (f t) \<Longrightarrow> pres prj Q (Let t f)"
  by simp

lemma pres_case_option [pres_intros]:
  "pres prj Q a \<Longrightarrow> (\<And>y. pres prj Q (b y)) \<Longrightarrow> pres prj Q (case v of None \<Rightarrow> a | Some y \<Rightarrow> b y)"
  by (cases v) auto

lemma pres_case_list [pres_intros]:
  "pres prj Q a \<Longrightarrow> (\<And>y ys. pres prj Q (b y ys)) \<Longrightarrow> pres prj Q (case v of [] \<Rightarrow> a | y # ys \<Rightarrow> b y ys)"
  by (cases v) auto

lemma pres_console_log [pres_intros]: "Q (Log args) \<Longrightarrow> pres (\<lambda>w. w) Q (console_log args)"
  by (simp add: pres_def console_log_def extends_def)

lemma pres_console_error [pres_intros]: "Q (LogError args) \<Longrightarrow> pres (\<lambda>w. w) Q (console_error args)"
  by (simp add: pres_def console_error_def extends_def)

lemma pres_io [pres_intros]: "pres (\<lambda>w. w) Q (io f)"
  by (simp add: pres_def io_def extends_def split: prod.splits)

lemma pres_io_try [pres_intros]: "pres (\<lambda>w. w) Q (io_try f)"
  by (simp add: pres_def io_try_def extends_def split: prod.splits)

lemma pres_in_world [pres_intros]: "pres (\<lambda>w. w) Q m \<Longrightarrow> pres wld Q (in_world m)"
  by (simp add: pres_def in_world_def split: prod.splits) (metis snd_conv)

lemma pres_xlog [pres_intros]: "Q (Log args) \<Longrightarrow> pres wld Q (xlog args)"
  unfolding xlog_def by (intro pres_intros)

lemma pres_push [pres_intros]: "pres wld Q (push c)"
  by (simp add: pres_def push_def extends_refl)

lemma pres_push_all [pres_intros]: "pres wld Q (push_all cs)"
  by (simp add: pres_def push_all_def extends_refl)

lemma pres_processed_add [pres_intros]: "pres wld Q (processed_add h)"
  by (simp add: pres_def processed_add_def extends_refl)

lemma not_call_found [simp]: "\<not> is_call (Log [LStr tag, LNum n])"
  by (simp add: is_call_def)

lemma not_call_error [simp]: "\<not> is_call (LogError args)"
  by (simp add: is_call_def)

lemma not_call_single [simp]: "\<not> is_call (Log [a])"
  by (simp add: is_call_def)

lemma pres_log_found [pres_intros]:
  "(\<And>l. \<not> is_call l \<Longrightarrow> Q l) \<Longrightarrow> pres wld Q (log_found tag)"
  unfolding log_found_def by (intro pres_intros) simp



lemma pres_extractor:
  assumes "\<And>l. \<not> is_call l \<Longrightarrow> Q l" and "pres wld Q body"
  shows "pres (\<lambda>w. w) Q (extractor tag body)"
proof -
  have t: "pres wld Q (try_catch body (\<lambda>e. in_world (console_error [LStr tag, LErr e])))"
    by (intro pres_intros assms) simp
  have "extends Q w (snd (extractor tag body w))" for w
  proof -
    obtain r x where run: "try_catch body (\<lambda>e. in_world (console_error [LStr tag, LErr e]))
        \<lparr>streams = [], processed = [], wld = w\<rparr> = (r, x)"
      by (cases "try_catch body (\<lambda>e. in_world (console_error [LStr tag, LErr e]))
        \<lparr>streams = [], processed = [], wld = w\<rparr>")
    from t have "extends Q (wld \<lparr>streams = [], processed = [], wld = w\<rparr>) (wld x)"
      unfolding pres_def using run by (metis snd_conv)
    then have "extends Q w (wld x)" by simp
    then show ?thesis by (cases r) (simp_all add: extractor_def run)
  qed
  then show ?thesis by (simp add: pres_def)
qed

lemma pres_fetchHtml [pres_intros]:
  "(\<And>l. \<not> is_call l \<Longrightarrow> Q l) \<Longrightarrow> pres (\<lambda>w. w) Q (fetchHtml P url hdrs)"
  unfolding fetchHtml_def by (intro pres_intros) simp_all

lemma pres_fetchJson [pres_intros]:
  "pres (\<lambda>w. w) Q (fetchJson P url hdrs)"
  unfolding fetchJson_def by (intro pres_intros)




lemma is_call_simps [simp]:
  "is_call (Log [LStr tag, LStr u]) \<longleftrightarrow>
     tag \<in> {''[PIXELDRAIN]'', ''[STREAMTAPE]'', ''[DOODSTREAM]'', ''[FILEMOON]'', ''[MIXDROP]'',
             ''[HUBCLOUD]'', ''[GDFLIX]''}"
  by (auto simp: is_call_def)

lemma enters_extends: "enters Q l w w' \<Longrightarrow> Q l \<Longrightarrow> extends Q w w'"
  by (auto simp: enters_def extends_def)

lemma extractor_enters:
  assumes notcall: "\<And>l. \<not> is_call l \<Longrightarrow> Q l" and rest: "\<And>u. pres wld Q (f u)"
  shows "enters Q (Log l) w (snd (extractor tag (bnd (xlog l) f) w))"
proof -
  let ?h = "\<lambda>e. in_world (console_error [LStr tag, LErr e])"
  let ?x0 = "\<lparr>streams = [], processed = [], wld = w\<rparr>"
  let ?x1 = "\<lparr>streams = [], processed = [], wld = w\<lparr>console := console w @ [Log l]\<rparr>\<rparr>"
  have first: "try_catch (bnd (xlog l) f) ?h ?x0 = try_catch (f ()) ?h ?x1"
    by (simp add: try_catch_def bnd_def xlog_def in_world_def console_log_def)
  have "pres wld Q (try_catch (f ()) ?h)"
    by (intro pres_intros rest notcall) simp
  then have ext: "extends Q (wld ?x1) (wld (snd (try_catch (f ()) ?h ?x1)))"
    unfolding pres_def by blast
  obtain r x where run: "try_catch (f ()) ?h ?x1 = (r, x)"
    by (cases "try_catch (f ()) ?h ?x1")
  from ext run have "extends Q (w\<lparr>console := console w @ [Log l]\<rparr>) (wld x)" by simp
  then have "enters Q (Log l) w (wld x)"
    by (auto simp: extends_def enters_def)
  then show ?thesis
    by (cases r) (simp_all add: extractor_def first run)
qed

lemma enters_pixeldrain:
  assumes "\<And>l. \<not> is_call l \<Longrightarrow> Q l"
  shows "enters Q (Log [LStr ''[PIXELDRAIN]'', LStr url]) w (snd (pixeldrainExtractor P url w))"
  unfolding pixeldrainExtractor_def
  by (rule extractor_enters [OF assms], assumption) (intro pres_intros; (rule assms, simp))

lemma enters_streamtape:
  assumes "\<And>l. \<not> is_call l \<Longrightarrow> Q l"
  shows "enters Q (Log [LStr ''[STREAMTAPE]'', LStr url]) w (snd (streamtapeExtractor P url w))"
  unfolding streamtapeExtractor_def
  by (rule extractor_enters [OF assms], assumption) (intro pres_intros; (rule assms, simp))

lemma enters_doodstream:
  assumes "\<And>l. \<not> is_call l \<Longrightarrow> Q l"
  shows "enters Q (Log [LStr ''[DOODSTREAM]'', LStr url]) w (snd (doodstreamExtractor P url w))"
  unfolding doodstreamExtractor_def
  by (rule extractor_enters [OF assms], assumption) (intro pres_intros; (rule assms, simp))

lemma enters_filemoon:
  assumes "\<And>l. \<not> is_call l \<Longrightarrow> Q l"
  shows "enters Q (Log [LStr ''[FILEMOON]'', LStr url]) w (snd (filemoonExtractor P url w))"
  unfolding filemoonExtractor_def
  by (rule extractor_enters [OF assms], assumption) (intro pres_intros; (rule assms, simp))

lemma enters_mixdrop:
  assumes "\<And>l. \<not> is_call l \<Longrightarrow> Q l"
  shows "enters Q (Log [LStr ''[MIXDROP]'', LStr url]) w (snd (mixdropExtractor P url w))"
  unfolding mixdropExtractor_def
  by (rule extractor_enters [OF assms], assumption) (intro pres_intros; (rule assms, simp))

lemma pres_hubcloud_link [pres_intros]:
  assumes "\<And>l. \<not> is_call l \<Longrightarrow> Q l"
  shows "pres wld Q (hubcloud_link el)"
  unfolding hubcloud_link_def
  by (intro pres_intros; (rule assms, simp))

lemma pres_direct_url [pres_intros]: "pres wld Q (direct_url skip u)"
  unfolding direct_url_def by (intro pres_intros)

lemma enters_hubcloud:
  assumes "\<And>l. \<not> is_call l \<Longrightarrow> Q l"
  shows "enters Q (Log [LStr ''[HUBCLOUD]'', LStr url]) w (snd (hubcloudExtractor P url w))"
  unfolding hubcloudExtractor_def
  by (rule extractor_enters [OF assms], assumption) (intro pres_intros; (rule assms, simp))

lemma pres_hubcloud:
  assumes "\<And>l. \<not> is_call l \<Longrightarrow> Q l" and "Q (Log [LStr ''[HUBCLOUD]'', LStr url])"
  shows "pres (\<lambda>w. w) Q (hubcloudExtractor P url)"
  unfolding pres_def using enters_extends [OF enters_hubcloud [of Q url _ P] assms(2)] assms(1)
  by blast

lemma pres_gdflix_link [pres_intros]:
  assumes "\<And>l. \<not> is_call l \<Longrightarrow> Q l"
  shows "pres wld Q (gdflix_link b el)"
  unfolding gdflix_link_def
  by (intro pres_intros; (rule assms, simp))

lemma pres_gdflix_embed [pres_intros]: "pres wld Q (gdflix_embed el)"
  unfolding gdflix_embed_def by (intro pres_intros)

lemma pres_first_href [pres_intros]: "pres prj Q (first_href P doc sel)"
  unfolding first_href_def by (intro pres_intros)

lemma pres_first_truthy [pres_intros]:
  "(\<And>m. m \<in> set ms \<Longrightarrow> pres prj Q m) \<Longrightarrow> pres prj Q (first_truthy ms)"
  by (induction ms rule: first_truthy.induct) (auto intro!: pres_intros)

lemma enters_gdflix:
  assumes "\<And>l. \<not> is_call l \<Longrightarrow> Q l" and "\<And>u. Q (Log [LStr ''[HUBCLOUD]'', LStr u])"
  shows "enters Q (Log [LStr ''[GDFLIX]'', LStr url]) w (snd (gdflixExtractor P url w))"
  unfolding gdflixExtractor_def
  by (rule extractor_enters [OF assms(1)], assumption)
     (intro pres_intros pres_hubcloud;
       (rule assms(2) | (rule assms(1), simp) | (auto intro!: pres_intros)[1]))

lemma enters_extractor_of:
  assumes "\<And>l. \<not> is_call l \<Longrightarrow> Q l"
    and "\<And>u. h = Gdflix \<Longrightarrow> Q (Log [LStr ''[HUBCLOUD]'', LStr u])"
  shows "enters Q (Log [LStr (tag_of h), LStr url]) w (snd (extractor_of h P url w))"
  using assms
  by (cases h)
     (simp_all add: enters_pixeldrain enters_streamtape enters_doodstream enters_filemoon
        enters_mixdrop enters_gdflix enters_hubcloud)

section \<open>Extractors return; the deep-resolve loop\<close>

lemma bnd_Inr: "m s = (Inr x, s') \<Longrightarrow> bnd m f s = f x s'"
  by (simp add: bnd_def)

lemma bnd_Inl: "m s = (Inl e, s') \<Longrightarrow> bnd m f s = (Inl e, s')"
  by (simp add: bnd_def)

lemma extractor_returns: "\<exists>r w'. extractor tag body w = (Inr r, w')"
proof -
  obtain r x where run: "body \<lparr>streams = [], processed = [], wld = w\<rparr> = (r, x)"
    by (cases "body \<lparr>streams = [], processed = [], wld = w\<rparr>")
  show ?thesis
    by (cases r)
       (simp_all add: extractor_def try_catch_def run in_world_def console_error_def)
qed

lemma extractor_of_returns: "\<exists>r w'. extractor_of h P url w = (Inr r, w')"
  by (cases h)
     (simp_all add: pixeldrainExtractor_def streamtapeExtractor_def doodstreamExtractor_def
        filemoonExtractor_def mixdropExtractor_def gdflixExtractor_def hubcloudExtractor_def
        extractor_returns)


lemma replacement_returns:
  "\<exists>r w'. replacement P c w = (Inr r, w') \<and> r \<noteq> []"
proof -
  have step: "\<exists>r w'. bnd (extractor_of h P (link c)) (\<lambda>r. ret (if length r > 0 then r else [c])) w = (Inr r, w') \<and> r \<noteq> []" for h
  proof -
    obtain r w' where "extractor_of h P (link c) w = (Inr r, w')"
      using extractor_of_returns by blast
    then show ?thesis by (auto simp: bnd_def ret_def)
  qed
  show ?thesis
    using step [of Streamtape] step [of Doodstream] step [of Filemoon] step [of Mixdrop]
    by (auto simp: replacement_def ret_def)
qed

lemma deepResolve_step:
  "deepResolve P (c # rest) acc = bnd (replacement P c) (\<lambda>r. deepResolve P rest (acc @ r))"
proof -
  have a: "bnd (bnd m (\<lambda>r. ret (if length r > 0 then r else [c]))) (\<lambda>r. deepResolve P rest (acc @ r))
      = bnd m (\<lambda>resolved. if length resolved > 0 then deepResolve P rest (acc @ resolved)
               else deepResolve P rest (acc @ [c]))" for m :: "(StreamLink list, 'a world) js"
    by (auto simp: bnd_def ret_def fun_eq_iff split: prod.splits sum.splits)
  have b: "bnd (ret [c]) (\<lambda>r. deepResolve P rest (acc @ r)) = deepResolve P rest (acc @ [c])"
    by (simp add: bnd_def ret_def)
  show ?thesis
    by (simp add: replacement_def a b del: length_greater_0_conv)
qed


lemma bnd_assoc: "bnd (bnd m f) g = bnd m (\<lambda>x. bnd (f x) g)"
  by (auto simp: bnd_def fun_eq_iff split: prod.splits sum.splits)

lemma bnd_ret_left: "bnd (ret x) f = f x"
  by (simp add: bnd_def ret_def)

lemma replacement_run:
  assumes notcall: "\<And>l. \<not> is_call l \<Longrightarrow> Q l"
    and embed: "\<And>tag u. tag \<in> embed_tags \<Longrightarrow> Q (Log [LStr tag, LStr u])"
  shows "\<exists>r w'. replacement P c w = (Inr r, w') \<and> r \<noteq> [] \<and> extends Q w w'"
proof -
  have step: "\<exists>r w'. bnd (extractor_of h P (link c)) (\<lambda>r. ret (if length r > 0 then r else [c])) w
                = (Inr r, w') \<and> r \<noteq> [] \<and> extends Q w w'"
    if h: "tag_of h \<in> embed_tags" for h
  proof -
    obtain r w' where run: "extractor_of h P (link c) w = (Inr r, w')"
      using extractor_of_returns by blast
    have "h \<noteq> Gdflix" using h by (auto simp: embed_tags_def)
    then have "enters Q (Log [LStr (tag_of h), LStr (link c)]) w (snd (extractor_of h P (link c) w))"
      by (intro enters_extractor_of [where Q = Q] notcall) simp_all
    then have "extends Q w w'"
      using run embed [OF h] by (auto intro: enters_extends)
    with run show ?thesis by (auto simp: bnd_def ret_def)
  qed
  show ?thesis
    using step [of Streamtape] step [of Doodstream] step [of Filemoon] step [of Mixdrop]
    by (auto simp: replacement_def ret_def extends_refl embed_tags_def)
qed

lemma deepResolve_run:
  assumes notcall: "\<And>l. \<not> is_call l \<Longrightarrow> Q l"
    and embed: "\<And>tag u. tag \<in> embed_tags \<Longrightarrow> Q (Log [LStr tag, LStr u])"
  shows "\<exists>r w'. (\<forall>acc. deepResolve P cs acc w = (Inr (acc @ r), w'))
           \<and> length cs \<le> length r \<and> extends Q w w'"
proof (induction cs arbitrary: w)
  case Nil
  show ?case by (auto simp: ret_def extends_refl intro!: exI [of _ "[]"])
next
  case (Cons c cs)
  obtain r1 w1 where one: "replacement P c w = (Inr r1, w1)" "r1 \<noteq> []" "extends Q w w1"
    using replacement_run [where Q = Q, OF notcall embed, of P c w] by blast
  obtain r2 w2 where more: "\<forall>acc. deepResolve P cs acc w1 = (Inr (acc @ r2), w2)"
      "length cs \<le> length r2" "extends Q w1 w2"
    using Cons.IH [of w1] by blast
  have "deepResolve P (c # cs) acc w = (Inr (acc @ r1 @ r2), w2)" for acc
  proof -
    have "deepResolve P (c # cs) acc w = deepResolve P cs (acc @ r1) w1"
      by (simp only: deepResolve_step bnd_Inr [where m = "replacement P c" and s = w, OF one(1)])
    then show ?thesis using more(1) by simp
  qed
  moreover have "length (c # cs) \<le> length (r1 @ r2)"
    using one(2) more(2) by (cases r1) auto
  moreover have "extends Q w w2"
    using one(3) more(3) by (rule extends_trans)
  ultimately show ?case by blast
qed

lemma deepResolve_append:
  "deepResolve P (xs @ ys) acc = bnd (deepResolve P xs acc) (deepResolve P ys)"
proof (induction xs arbitrary: acc)
  case Nil
  show ?case by (simp add: bnd_ret_left)
next
  case (Cons x xs)
  show ?case
    by (simp only: append_Cons deepResolve_step Cons.IH bnd_assoc)
qed

lemma extractByHost_classify:
  "extractByHost P url =
     (case classify url of
        Some h \<Rightarrow> extractor_of h P url
      | None \<Rightarrow> bnd (hubcloudExtractor P url) (\<lambda>s.
                  if length s = 0 then gdflixExtractor P url else ret s))"
  by (simp add: extractByHost_def classify_def markers_def Let_def)

lemma getCachedStreams_run:
  "\<exists>hit e'. getCachedStreams P url w = (Inr hit, w\<lparr>env := e'\<rparr>)"
  by (cases "getCached P (cache_streams w) url CACHE_TTL_streams (env w)")
     (auto simp: getCachedStreams_def)

lemma finishResolve_run:
  assumes notcall: "\<And>l. \<not> is_call l \<Longrightarrow> Q l"
    and embed: "\<And>tag u. tag \<in> embed_tags \<Longrightarrow> Q (Log [LStr tag, LStr u])"
  shows "\<exists>D w2. (\<forall>acc. deepResolve P S acc w1 = (Inr (acc @ D), w2))
           \<and> length S \<le> length D \<and> extends Q w1 w2
           \<and> finishResolve P url S w1 =
               (Inr D, if D = [] then w2
                       else w2\<lparr>env := snd (setCache P (cache_streams w2) url D (env w2)),
                               cache_streams := fst (setCache P (cache_streams w2) url D (env w2))\<rparr>)"
proof -
  obtain D w2 where deep: "\<forall>acc. deepResolve P S acc w1 = (Inr (acc @ D), w2)"
      "length S \<le> length D" "extends Q w1 w2"
    using deepResolve_run [where Q = Q, OF notcall embed, of P S w1] by blast
  have d0: "deepResolve P S [] w1 = (Inr D, w2)" using deep(1) by simp
  have "S = []" if "D = []" using that deep(2) by simp
  then have "finishResolve P url S w1 =
               (Inr D, if D = [] then w2
                       else w2\<lparr>env := snd (setCache P (cache_streams w2) url D (env w2)),
                               cache_streams := fst (setCache P (cache_streams w2) url D (env w2))\<rparr>)"
    by (auto simp: finishResolve_def bnd_def d0 ret_def setCacheStreams_def Let_def split: prod.splits)
  with deep show ?thesis by blast
qed



lemma extractByHost_run:
  assumes notcall: "\<And>l. \<not> is_call l \<Longrightarrow> Q l"
    and calls: "\<And>tag u. Q (Log [LStr tag, LStr u])"
  shows "\<exists>S w1. extractByHost P url w = (Inr S, w1) \<and> extends Q w w1"
proof -
  have one: "\<exists>S w1. extractor_of h P u w0 = (Inr S, w1) \<and> extends Q w0 w1" for h u w0
  proof -
    obtain S w1 where run: "extractor_of h P u w0 = (Inr S, w1)"
      using extractor_of_returns by blast
    have "enters Q (Log [LStr (tag_of h), LStr u]) w0 (snd (extractor_of h P u w0))"
      by (intro enters_extractor_of [where Q = Q] notcall calls)
    then have "extends Q w0 w1" using run calls by (auto intro: enters_extends)
    with run show ?thesis by blast
  qed
  show ?thesis
  proof (cases "classify url")
    case (Some h)
    then show ?thesis using one [of h url w] by (simp add: extractByHost_classify)
  next
    case None
    obtain S1 w1 where h: "hubcloudExtractor P url w = (Inr S1, w1)" "extends Q w w1"
      using one [of Hubcloud url w] by auto
    obtain S2 w2 where g: "gdflixExtractor P url w1 = (Inr S2, w2)" "extends Q w1 w2"
      using one [of Gdflix url w1] by auto
    show ?thesis
      using None h g extends_trans [OF h(2) g(2)]
      by (auto simp: extractByHost_classify bnd_def ret_def)
  qed
qed

section \<open>The orchestrator\<close>

text \<open>
  Claim C4. A \<^verbatim>\<open>resolveLink\<close> call that returns the empty list leaves
  \<^verbatim>\<open>cache.streams\<close> as it found it; and whenever the call changes the map, it returned
  a non-empty list \<open>s\<close> and the map is the result of \<^verbatim>\<open>setCache(cache.streams, url, s)\<close>
  on the map the call started with, \<open>url\<close> being the URL passed in.
\<close>

theorem resolve_empty_not_cached:
  "(fst (resolveLink P url w) = Inr [] \<longrightarrow>
      cache_streams (snd (resolveLink P url w)) = cache_streams w)
   \<and> (cache_streams (snd (resolveLink P url w)) \<noteq> cache_streams w \<longrightarrow>
      (\<exists>s e. fst (resolveLink P url w) = Inr s \<and> s \<noteq> [] \<and>
         cache_streams (snd (resolveLink P url w)) = fst (setCache P (cache_streams w) url s e)))"
proof -
  obtain hit e0 where look: "getCachedStreams P url w = (Inr hit, w\<lparr>env := e0\<rparr>)"
    using getCachedStreams_run [of P url w] by blast
  show ?thesis
  proof (cases hit)
    case (Some c)
    then show ?thesis by (simp add: resolveLink_def bnd_def look ret_def)
  next
    case None
    obtain S w1 where ex: "extractByHost P url (w\<lparr>env := e0\<rparr>) = (Inr S, w1)"
        "extends (\<lambda>_. True) (w\<lparr>env := e0\<rparr>) w1"
      using extractByHost_run [where Q = "\<lambda>_. True" and P = P and url = url and w = "w\<lparr>env := e0\<rparr>"] by auto
    obtain D w2 where fin: "extends (\<lambda>_. True) w1 w2"
        "finishResolve P url S w1 =
               (Inr D, if D = [] then w2
                       else w2\<lparr>env := snd (setCache P (cache_streams w2) url D (env w2)),
                               cache_streams := fst (setCache P (cache_streams w2) url D (env w2))\<rparr>)"
      using finishResolve_run [where Q = "\<lambda>_. True" and P = P and S = S and ?w1.0 = w1 and url = url]
      by blast
    have same: "cache_streams w2 = cache_streams w"
      using ex(2) fin(1) by (simp add: extends_def)
    have run: "resolveLink P url w =
               (Inr D, if D = [] then w2
                       else w2\<lparr>env := snd (setCache P (cache_streams w2) url D (env w2)),
                               cache_streams := fst (setCache P (cache_streams w2) url D (env w2))\<rparr>)"
      by (simp add: resolveLink_def bnd_def look None ex(1) fin(2))
    show ?thesis
      unfolding run using same by auto
  qed
qed


theorem resolve_empty_not_cached_witness:
  "fst (resolveLink offline ''https://example.com/x'' world0) = Inr []
   \<and> cache_streams (snd (resolveLink offline ''https://example.com/x'' world0)) = cache_streams world0
   \<and> cache_streams (snd (resolveLink offline ''https://pixeldrain.com/u/abc123'' world0)) \<noteq> cache_streams world0
   \<and> (\<exists>s e. fst (resolveLink offline ''https://pixeldrain.com/u/abc123'' world0) = Inr s \<and> s \<noteq> [] \<and>
         cache_streams (snd (resolveLink offline ''https://pixeldrain.com/u/abc123'' world0))
           = fst (setCache offline (cache_streams world0) ''https://pixeldrain.com/u/abc123'' s e))"
proof -
  have a: "fst (resolveLink offline ''https://example.com/x'' world0) = Inr []"
    by code_simp
  have b: "cache_streams (snd (resolveLink offline ''https://pixeldrain.com/u/abc123'' world0)) \<noteq> cache_streams world0"
    by code_simp
  show ?thesis
    using a b resolve_empty_not_cached [of offline "''https://example.com/x''" world0]
      resolve_empty_not_cached [of offline "''https://pixeldrain.com/u/abc123''" world0]
    by blast
qed

text \<open>
  Claim C10. The deep-resolve loop returns at least as many candidates as it is given, so
  its result is empty only for the empty input; and a \<^verbatim>\<open>resolveLink\<close> call that
  misses the cache returns the empty list exactly when the extraction step (run in the
  world the cache lookup leaves) returned the empty list.
\<close>

theorem deep_resolve_never_empties:
  "(\<exists>r w'. deepResolve P cs [] w = (Inr r, w') \<and> length cs \<le> length r \<and> (r = [] \<longleftrightarrow> cs = []))
   \<and> (\<forall>w0. getCachedStreams P url w = (Inr None, w0) \<longrightarrow>
         (fst (resolveLink P url w) = Inr [] \<longleftrightarrow> fst (extractByHost P url w0) = Inr []))"
proof
  obtain r w' where deep: "\<forall>acc. deepResolve P cs acc w = (Inr (acc @ r), w')" "length cs \<le> length r"
    using deepResolve_run [where Q = "\<lambda>_. True" and P = P and cs = cs and w = w] by auto
  have "deepResolve P cs [] w = (Inr r, w')" using deep(1) by simp
  moreover have "r = [] \<longleftrightarrow> cs = []"
  proof
    assume "r = []" then show "cs = []" using deep(2) by simp
  next
    assume "cs = []" then show "r = []" using deep(1) by (simp add: ret_def)
  qed
  ultimately show "\<exists>r w'. deepResolve P cs [] w = (Inr r, w') \<and> length cs \<le> length r \<and> (r = [] \<longleftrightarrow> cs = [])"
    using deep(2) by blast
next
  show "\<forall>w0. getCachedStreams P url w = (Inr None, w0) \<longrightarrow>
         (fst (resolveLink P url w) = Inr [] \<longleftrightarrow> fst (extractByHost P url w0) = Inr [])"
  proof (intro allI impI)
    fix w0 assume look: "getCachedStreams P url w = (Inr None, w0)"
    obtain S w1 where ex: "extractByHost P url w0 = (Inr S, w1)"
      using extractByHost_run [where Q = "\<lambda>_. True" and P = P and url = url and w = w0] by auto
    obtain D w2 where fin: "length S \<le> length D" "\<forall>acc. deepResolve P S acc w1 = (Inr (acc @ D), w2)"
        "fst (finishResolve P url S w1) = Inr D"
      using finishResolve_run [where Q = "\<lambda>_. True" and P = P and S = S and ?w1.0 = w1 and url = url]
      by auto
    have "D = [] \<longleftrightarrow> S = []"
    proof
      assume "D = []" then show "S = []" using fin(1) by simp
    next
      assume "S = []" then show "D = []" using fin(2) by (simp add: ret_def)
    qed
    moreover have "fst (resolveLink P url w) = Inr D"
      by (simp add: resolveLink_def bnd_def look ex fin(3))
    ultimately show "fst (resolveLink P url w) = Inr [] \<longleftrightarrow> fst (extractByHost P url w0) = Inr []"
      by (simp add: ex)
  qed
qed

theorem deep_resolve_never_empties_witness:
  "getCachedStreams offline ''https://example.com/x'' world0 = (Inr None, world0)
   \<and> (fst (resolveLink offline ''https://example.com/x'' world0) = Inr []
        \<longleftrightarrow> fst (extractByHost offline ''https://example.com/x'' world0) = Inr [])
   \<and> getCachedStreams offline ''https://pixeldrain.com/u/abc123'' world0 = (Inr None, world0)
   \<and> fst (extractByHost offline ''https://pixeldrain.com/u/abc123'' world0) \<noteq> Inr []
   \<and> fst (resolveLink offline ''https://pixeldrain.com/u/abc123'' world0) \<noteq> Inr []"
proof -
  have a: "getCachedStreams offline ''https://example.com/x'' world0 = (Inr None, world0)"
    by code_simp
  have b: "getCachedStreams offline ''https://pixeldrain.com/u/abc123'' world0 = (Inr None, world0)"
    by code_simp
  have c: "fst (extractByHost offline ''https://pixeldrain.com/u/abc123'' world0) \<noteq> Inr []"
    by code_simp
  show ?thesis
    using a b c
      deep_resolve_never_empties [of offline "[]" world0 "''https://example.com/x''"]
      deep_resolve_never_empties [of offline "[]" world0 "''https://pixeldrain.com/u/abc123''"]
    by blast
qed


text \<open>
  Claim C7. In the deep-resolve loop over \<open>pre @ c # post\<close>, where the candidate \<open>c\<close> has
  server \<open>"Streamtape"\<close> and a link without \<open>"get_video"\<close>: with \<open>A\<close> the result of the loop
  on \<open>pre\<close>, \<open>R\<close> what \<^verbatim>\<open>streamtapeExtractor\<close> returns on the link of \<open>c\<close> (invoked in the
  world the loop on \<open>pre\<close> leaves) and \<open>B\<close> the result of the loop on \<open>post\<close> after that,
  the result is \<open>A\<close>, then \<open>R\<close> (or \<open>c\<close> itself when \<open>R\<close> is empty), then \<open>B\<close>.
\<close>

theorem deep_resolve_streamtape:
  assumes "server c = ''Streamtape''" and "\<not> str_includes (link c) ''get_video''"
  shows "\<exists>A w1 R w2 B w3.
           deepResolve P pre [] w = (Inr A, w1)
         \<and> streamtapeExtractor P (link c) w1 = (Inr R, w2)
         \<and> deepResolve P post [] w2 = (Inr B, w3)
         \<and> deepResolve P (pre @ c # post) [] w = (Inr (A @ (if R = [] then [c] else R) @ B), w3)"
proof -
  obtain A w1 where a: "\<forall>acc. deepResolve P pre acc w = (Inr (acc @ A), w1)"
    using deepResolve_run [where Q = "\<lambda>_. True" and P = P and cs = pre and w = w] by auto
  obtain R w2 where r: "streamtapeExtractor P (link c) w1 = (Inr R, w2)"
    using extractor_of_returns [of Streamtape P "link c" w1] by auto
  obtain B w3 where b: "\<forall>acc. deepResolve P post acc w2 = (Inr (acc @ B), w3)"
    using deepResolve_run [where Q = "\<lambda>_. True" and P = P and cs = post and w = w2] by auto
  have one: "replacement P c w1 = (Inr (if R = [] then [c] else R), w2)"
    using assms r by (simp add: replacement_def bnd_def ret_def)
  have "deepResolve P (pre @ c # post) [] w = deepResolve P (c # post) A w1"
    using a by (simp add: deepResolve_append bnd_def del: deepResolve.simps)
  also have "\<dots> = deepResolve P post (A @ (if R = [] then [c] else R)) w2"
    by (simp only: deepResolve_step bnd_Inr [where m = "replacement P c" and s = w1, OF one])
  also have "\<dots> = (Inr (A @ (if R = [] then [c] else R) @ B), w3)"
    using b by simp
  finally show ?thesis using a r b by auto
qed

theorem deep_resolve_streamtape_witness:
  "server (hd_candidate ''Streamtape'' ''https://streamtape.com/e/abc'' Mp4) = ''Streamtape''
   \<and> \<not> str_includes (link (hd_candidate ''Streamtape'' ''https://streamtape.com/e/abc'' Mp4)) ''get_video''
   \<and> (\<exists>A w1 R w2 B w3.
         deepResolve (serving [(''https://streamtape.com/e/abc'', streamtape_page)] [])
           [hd_candidate ''Direct'' ''https://cdn.example/a.mp4'' Mp4] [] world0 = (Inr A, w1)
       \<and> streamtapeExtractor (serving [(''https://streamtape.com/e/abc'', streamtape_page)] [])
           (link (hd_candidate ''Streamtape'' ''https://streamtape.com/e/abc'' Mp4)) w1 = (Inr R, w2)
       \<and> deepResolve (serving [(''https://streamtape.com/e/abc'', streamtape_page)] []) [] [] w2 = (Inr B, w3)
       \<and> deepResolve (serving [(''https://streamtape.com/e/abc'', streamtape_page)] [])
           ([hd_candidate ''Direct'' ''https://cdn.example/a.mp4'' Mp4]
              @ hd_candidate ''Streamtape'' ''https://streamtape.com/e/abc'' Mp4 # []) [] world0
           = (Inr (A @ (if R = [] then [hd_candidate ''Streamtape'' ''https://streamtape.com/e/abc'' Mp4] else R) @ B), w3))
   \<and> fst (deepResolve (serving [(''https://streamtape.com/e/abc'', streamtape_page)] [])
           [hd_candidate ''Direct'' ''https://cdn.example/a.mp4'' Mp4,
            hd_candidate ''Streamtape'' ''https://streamtape.com/e/abc'' Mp4] [] world0)
       = Inr [hd_candidate ''Direct'' ''https://cdn.example/a.mp4'' Mp4,
              hd_candidate ''Streamtape'' ''https://streamtape.com/get_video?id=abc&expires=1'' Mp4]"
proof -
  have a: "server (hd_candidate ''Streamtape'' ''https://streamtape.com/e/abc'' Mp4) = ''Streamtape''"
    by (simp add: hd_candidate_def)
  have b: "\<not> str_includes (link (hd_candidate ''Streamtape'' ''https://streamtape.com/e/abc'' Mp4)) ''get_video''"
    by code_simp
  have c: "fst (deepResolve (serving [(''https://streamtape.com/e/abc'', streamtape_page)] [])
           [hd_candidate ''Direct'' ''https://cdn.example/a.mp4'' Mp4,
            hd_candidate ''Streamtape'' ''https://streamtape.com/e/abc'' Mp4] [] world0)
       = Inr [hd_candidate ''Direct'' ''https://cdn.example/a.mp4'' Mp4,
              hd_candidate ''Streamtape'' ''https://streamtape.com/get_video?id=abc&expires=1'' Mp4]"
    by code_simp
  show ?thesis
    using a b c
      deep_resolve_streamtape [OF a b, of "serving [(''https://streamtape.com/e/abc'', streamtape_page)] []"
        "[hd_candidate ''Direct'' ''https://cdn.example/a.mp4'' Mp4]" world0 "[]"]
    by simp
qed


lemma find_first:
  "P y \<Longrightarrow> (\<forall>x \<in> set xs. \<not> P x) \<Longrightarrow> find P (xs @ y # ys) = Some y"
  by (induction xs) auto

lemma extractByHost_enters:
  assumes "classify url = Some h"
  shows "\<exists>new. console (snd (extractByHost P url w)) = console w @ Log [LStr (tag_of h), LStr url] # new
            \<and> list_all (\<lambda>l. is_call l \<longrightarrow> h = Gdflix \<and> (\<exists>u. l = Log [LStr ''[HUBCLOUD]'', LStr u])) new"
proof -
  have "enters (\<lambda>l. is_call l \<longrightarrow> h = Gdflix \<and> (\<exists>u. l = Log [LStr ''[HUBCLOUD]'', LStr u]))
          (Log [LStr (tag_of h), LStr url]) w (snd (extractor_of h P url w))"
    by (rule enters_extractor_of) simp_all
  then show ?thesis using assms by (simp add: extractByHost_classify enters_def)
qed

text \<open>
  Claim C9. The extraction step of \<^verbatim>\<open>resolveLink\<close> runs the extractor of the first
  marker of the table \<open>markers\<close> (pixeldrain, streamtape, dood, filemoon, mixdrop,
  gdflix/nexdrive, hubcloud/vcloud) that the lower-cased URL holds, and the fallback when it
  holds none. When the URL holds a marker and none of the markers before it in the table,
  whatever later markers it holds, the step is that marker's extractor applied to the URL:
  the first line logged is that extractor's entry line for the URL, and no other extractor's
  entry line is logged during the step (except that the gdflix extractor itself may invoke
  the hubcloud extractor on a link of the page).
\<close>

theorem first_marker_selects:
  "extractByHost P url =
     (case classify url of
        Some h \<Rightarrow> extractor_of h P url
      | None \<Rightarrow> bnd (hubcloudExtractor P url) (\<lambda>s.
                  if length s = 0 then gdflixExtractor P url else ret s))
   \<and> (\<forall>pre m h post.
         markers = pre @ (m, h) # post \<and> str_includes (toLowerCase url) m
           \<and> (\<forall>mh \<in> set pre. \<not> str_includes (toLowerCase url) (fst mh)) \<longrightarrow>
         classify url = Some h \<and> extractByHost P url = extractor_of h P url
         \<and> (\<exists>new. console (snd (extractByHost P url w))
                     = console w @ Log [LStr (tag_of h), LStr url] # new
               \<and> list_all (\<lambda>l. is_call l \<longrightarrow>
                              h = Gdflix \<and> (\<exists>u. l = Log [LStr ''[HUBCLOUD]'', LStr u])) new))"
proof (intro conjI allI impI)
  show "extractByHost P url =
     (case classify url of
        Some h \<Rightarrow> extractor_of h P url
      | None \<Rightarrow> bnd (hubcloudExtractor P url) (\<lambda>s.
                  if length s = 0 then gdflixExtractor P url else ret s))"
    by (rule extractByHost_classify)
next
  fix pre m h post
  assume split: "markers = pre @ (m, h) # post \<and> str_includes (toLowerCase url) m
           \<and> (\<forall>mh \<in> set pre. \<not> str_includes (toLowerCase url) (fst mh))"
  then have "find (\<lambda>mh. str_includes (toLowerCase url) (fst mh)) (pre @ (m, h) # post) = Some (m, h)"
    by (intro find_first) auto
  with split show cl: "classify url = Some h"
    by (simp add: classify_def)
  then show "extractByHost P url = extractor_of h P url"
    by (simp add: extractByHost_classify)
  show "\<exists>new. console (snd (extractByHost P url w))
                     = console w @ Log [LStr (tag_of h), LStr url] # new
               \<and> list_all (\<lambda>l. is_call l \<longrightarrow>
                              h = Gdflix \<and> (\<exists>u. l = Log [LStr ''[HUBCLOUD]'', LStr u])) new"
    using cl by (rule extractByHost_enters)
qed

theorem first_marker_selects_witness:
  "markers = [(''pixeldrain'', Pixeldrain), (''streamtape'', Streamtape)] @ (''dood'', Doodstream)
       # [(''filemoon'', Filemoon), (''mixdrop'', Mixdrop), (''gdflix'', Gdflix),
          (''nexdrive'', Gdflix), (''hubcloud'', Hubcloud), (''vcloud'', Hubcloud)]
   \<and> str_includes (toLowerCase ''https://DOOD.to/e/hubcloud'') ''dood''
   \<and> str_includes (toLowerCase ''https://DOOD.to/e/hubcloud'') ''hubcloud''
   \<and> \<not> str_includes (toLowerCase ''https://DOOD.to/e/hubcloud'') ''pixeldrain''
   \<and> \<not> str_includes (toLowerCase ''https://DOOD.to/e/hubcloud'') ''streamtape''
   \<and> classify ''https://DOOD.to/e/hubcloud'' = Some Doodstream
   \<and> extractByHost offline ''https://DOOD.to/e/hubcloud'' = doodstreamExtractor offline ''https://DOOD.to/e/hubcloud''
   \<and> (\<exists>new. console (snd (extractByHost offline ''https://DOOD.to/e/hubcloud'' world0))
                = console world0 @ Log [LStr ''[DOODSTREAM]'', LStr ''https://DOOD.to/e/hubcloud''] # new
             \<and> list_all (\<lambda>l. \<not> is_call l) new)"
proof -
  have a: "markers = [(''pixeldrain'', Pixeldrain), (''streamtape'', Streamtape)] @ (''dood'', Doodstream)
       # [(''filemoon'', Filemoon), (''mixdrop'', Mixdrop), (''gdflix'', Gdflix),
          (''nexdrive'', Gdflix), (''hubcloud'', Hubcloud), (''vcloud'', Hubcloud)]"
    by (simp add: markers_def)
  have b: "str_includes (toLowerCase ''https://DOOD.to/e/hubcloud'') ''dood''"
    by code_simp
  have c: "str_includes (toLowerCase ''https://DOOD.to/e/hubcloud'') ''hubcloud''"
    by code_simp
  have d: "\<not> str_includes (toLowerCase ''https://DOOD.to/e/hubcloud'') ''pixeldrain''"
    by code_simp
  have e: "\<not> str_includes (toLowerCase ''https://DOOD.to/e/hubcloud'') ''streamtape''"
    by code_simp
  have pre: "\<forall>mh \<in> set [(''pixeldrain'', Pixeldrain), (''streamtape'', Streamtape)].
               \<not> str_includes (toLowerCase ''https://DOOD.to/e/hubcloud'') (fst mh)"
    using d e by simp
  from first_marker_selects [of offline "''https://DOOD.to/e/hubcloud''" world0] a b pre
  have "classify ''https://DOOD.to/e/hubcloud'' = Some Doodstream
      \<and> extractByHost offline ''https://DOOD.to/e/hubcloud'' = extractor_of Doodstream offline ''https://DOOD.to/e/hubcloud''
      \<and> (\<exists>new. console (snd (extractByHost offline ''https://DOOD.to/e/hubcloud'' world0))
                = console world0 @ Log [LStr (tag_of Doodstream), LStr ''https://DOOD.to/e/hubcloud''] # new
             \<and> list_all (\<lambda>l. is_call l \<longrightarrow>
                   Doodstream = Gdflix \<and> (\<exists>u. l = Log [LStr ''[HUBCLOUD]'', LStr u])) new)"
    by blast
  then have k1: "classify ''https://DOOD.to/e/hubcloud'' = Some Doodstream"
    and k2: "extractByHost offline ''https://DOOD.to/e/hubcloud'' = extractor_of Doodstream offline ''https://DOOD.to/e/hubcloud''"
    and k3: "\<exists>new. console (snd (extractByHost offline ''https://DOOD.to/e/hubcloud'' world0))
                = console world0 @ Log [LStr (tag_of Doodstream), LStr ''https://DOOD.to/e/hubcloud''] # new
             \<and> list_all (\<lambda>l. is_call l \<longrightarrow>
                   Doodstream = Gdflix \<and> (\<exists>u. l = Log [LStr ''[HUBCLOUD]'', LStr u])) new"
    by blast+
  have k2': "extractByHost offline ''https://DOOD.to/e/hubcloud'' = doodstreamExtractor offline ''https://DOOD.to/e/hubcloud''"
    using k2 by simp
  have k3': "\<exists>new. console (snd (extractByHost offline ''https://DOOD.to/e/hubcloud'' world0))
                = console world0 @ Log [LStr ''[DOODSTREAM]'', LStr ''https://DOOD.to/e/hubcloud''] # new
             \<and> list_all (\<lambda>l. \<not> is_call l) new"
    using k3 by simp
  from a b c d e k1 k2' k3' show ?thesis by blast
qed


lemma finishResolve_console:
  assumes notcall: "\<And>l. \<not> is_call l \<Longrightarrow> Q l"
    and embed: "\<And>tag u. tag \<in> embed_tags \<Longrightarrow> Q (Log [LStr tag, LStr u])"
  shows "\<exists>new. console (snd (finishResolve P url S w1)) = console w1 @ new \<and> list_all Q new"
proof -
  obtain D w2 where fin: "extends Q w1 w2"
      "finishResolve P url S w1 =
               (Inr D, if D = [] then w2
                       else w2\<lparr>env := snd (setCache P (cache_streams w2) url D (env w2)),
                               cache_streams := fst (setCache P (cache_streams w2) url D (env w2))\<rparr>)"
    using finishResolve_run [where Q = Q and P = P and S = S and ?w1.0 = w1 and url = url,
        OF notcall embed]
    by blast
  show ?thesis using fin(1) by (auto simp: fin(2) extends_def)
qed

text \<open>
  Claim C5. For a URL that holds no marker and misses the cache, \<^verbatim>\<open>resolveLink\<close>
  invokes \<^verbatim>\<open>hubcloudExtractor\<close> on it first (its entry line is the first line logged),
  then continues with its result when that is non-empty, and with the result of
  \<^verbatim>\<open>gdflixExtractor\<close> on the URL when it is empty; the entry line of
  \<^verbatim>\<open>gdflixExtractor\<close> for the URL, and any entry line of \<^verbatim>\<open>gdflixExtractor\<close> at
  all, is logged during the call exactly when the hubcloud invocation returned no candidate.
\<close>

theorem unclassified_fallback:
  assumes "classify url = None" and "getCachedStreams P url w = (Inr None, w0)"
  shows "\<exists>S1 w1.
           hubcloudExtractor P url w0 = (Inr S1, w1)
         \<and> resolveLink P url w =
             (if S1 = [] then bnd (gdflixExtractor P url) (finishResolve P url) w1
              else finishResolve P url S1 w1)
         \<and> (\<exists>rest. console (snd (resolveLink P url w))
                      = console w @ Log [LStr ''[HUBCLOUD]'', LStr url] # rest
                \<and> (Log [LStr ''[GDFLIX]'', LStr url] \<in> set rest \<longleftrightarrow> S1 = [])
                \<and> ((\<exists>u. Log [LStr ''[GDFLIX]'', LStr u] \<in> set rest) \<longleftrightarrow> S1 = []))"
proof -
  let ?G = "Log [LStr ''[GDFLIX]'', LStr url]"
  let ?Q = "\<lambda>l. \<forall>u. l \<noteq> Log [LStr ''[GDFLIX]'', LStr u]"
  have notcall: "\<not> is_call l \<Longrightarrow> ?Q l" for l by auto
  have embed: "tag \<in> embed_tags \<Longrightarrow> ?Q (Log [LStr tag, LStr u])" for tag u
    by (auto simp: embed_tags_def)
  obtain hit e0 where "getCachedStreams P url w = (Inr hit, w\<lparr>env := e0\<rparr>)"
    using getCachedStreams_run [of P url w] by blast
  with assms(2) have w0: "console w0 = console w" by auto
  obtain S1 w1 where hub: "hubcloudExtractor P url w0 = (Inr S1, w1)"
    using extractor_of_returns [of Hubcloud P url w0] by auto
  have "enters ?Q (Log [LStr ''[HUBCLOUD]'', LStr url]) w0 (snd (hubcloudExtractor P url w0))"
    by (rule enters_hubcloud) auto
  then obtain new1 where c1: "console w1 = console w @ Log [LStr ''[HUBCLOUD]'', LStr url] # new1"
      and q1: "list_all ?Q new1"
    using hub w0 by (auto simp: enters_def)
  have run: "resolveLink P url w =
             (if S1 = [] then bnd (gdflixExtractor P url) (finishResolve P url) w1
              else finishResolve P url S1 w1)"
    using assms hub
    by (simp add: resolveLink_def bnd_def extractByHost_classify ret_def)
  have trace: "\<exists>rest. console (snd (resolveLink P url w))
                      = console w @ Log [LStr ''[HUBCLOUD]'', LStr url] # rest
                \<and> (?G \<in> set rest \<longleftrightarrow> S1 = [])
                \<and> ((\<exists>u. Log [LStr ''[GDFLIX]'', LStr u] \<in> set rest) \<longleftrightarrow> S1 = [])"
  proof (cases "S1 = []")
    case False
    obtain new2 where c2: "console (snd (finishResolve P url S1 w1)) = console w1 @ new2"
        and q2: "list_all ?Q new2"
      using finishResolve_console [where Q = ?Q and P = P and url = url and S = S1 and ?w1.0 = w1]
        notcall embed by blast
    have "\<forall>u. Log [LStr ''[GDFLIX]'', LStr u] \<notin> set (new1 @ new2)"
      using q1 q2 by (auto simp: list_all_iff)
    moreover have "console (snd (resolveLink P url w))
        = console w @ Log [LStr ''[HUBCLOUD]'', LStr url] # (new1 @ new2)"
      using False by (simp add: run c2 c1)
    ultimately show ?thesis using False by blast
  next
    case True
    obtain S2 w2 where gd: "gdflixExtractor P url w1 = (Inr S2, w2)"
      using extractor_of_returns [of Gdflix P url w1] by auto
    have "enters (\<lambda>_. True) ?G w1 (snd (gdflixExtractor P url w1))"
      by (rule enters_gdflix) auto
    then obtain new3 where c3: "console w2 = console w1 @ ?G # new3"
      using gd by (auto simp: enters_def)
    obtain new4 where c4: "console (snd (finishResolve P url S2 w2)) = console w2 @ new4"
      using finishResolve_console [where Q = "\<lambda>_. True" and P = P and url = url and S = S2 and ?w1.0 = w2]
      by auto
    have "console (snd (resolveLink P url w))
        = console w @ Log [LStr ''[HUBCLOUD]'', LStr url] # (new1 @ ?G # new3 @ new4)"
      using True by (simp add: run bnd_def gd c4 c3 c1)
    moreover have "?G \<in> set (new1 @ ?G # new3 @ new4)" by simp
    ultimately show ?thesis using True by blast
  qed
  from hub run trace show ?thesis by blast
qed

lemma console_world0: "console world0 = []"
  by (simp add: world0_def)

theorem unclassified_fallback_witness:
  "classify ''https://example.com/x'' = None
   \<and> getCachedStreams offline ''https://example.com/x'' world0 = (Inr None, world0)
   \<and> (\<exists>S1 w1.
         hubcloudExtractor offline ''https://example.com/x'' world0 = (Inr S1, w1)
       \<and> resolveLink offline ''https://example.com/x'' world0 =
           (if S1 = [] then bnd (gdflixExtractor offline ''https://example.com/x'')
                                (finishResolve offline ''https://example.com/x'') w1
            else finishResolve offline ''https://example.com/x'' S1 w1)
       \<and> (\<exists>rest. console (snd (resolveLink offline ''https://example.com/x'' world0))
                    = console world0 @ Log [LStr ''[HUBCLOUD]'', LStr ''https://example.com/x''] # rest
              \<and> (Log [LStr ''[GDFLIX]'', LStr ''https://example.com/x''] \<in> set rest \<longleftrightarrow> S1 = [])
              \<and> ((\<exists>u. Log [LStr ''[GDFLIX]'', LStr u] \<in> set rest) \<longleftrightarrow> S1 = [])))
   \<and> classify ''https://example.org/drive/abc'' = None
   \<and> getCachedStreams aggregator_site ''https://example.org/drive/abc'' world0 = (Inr None, world0)
   \<and> fst (hubcloudExtractor aggregator_site ''https://example.org/drive/abc'' world0)
       = Inr [hd_candidate ''Direct'' ''/dl/movie.mkv'' Mkv]
   \<and> Log [LStr ''[GDFLIX]'', LStr ''https://example.org/drive/abc'']
       \<notin> set (console (snd (resolveLink aggregator_site ''https://example.org/drive/abc'' world0)))"
proof -
  have a: "classify ''https://example.com/x'' = None"
    by code_simp
  have b: "getCachedStreams offline ''https://example.com/x'' world0 = (Inr None, world0)"
    by code_simp
  have c: "classify ''https://example.org/drive/abc'' = None"
    by code_simp
  have d: "getCachedStreams aggregator_site ''https://example.org/drive/abc'' world0 = (Inr None, world0)"
    by code_simp
  have e: "fst (hubcloudExtractor aggregator_site ''https://example.org/drive/abc'' world0)
       = Inr [hd_candidate ''Direct'' ''/dl/movie.mkv'' Mkv]"
    by code_simp
  obtain S1 w1 rest where hub: "hubcloudExtractor aggregator_site ''https://example.org/drive/abc'' world0 = (Inr S1, w1)"
    and trace: "console (snd (resolveLink aggregator_site ''https://example.org/drive/abc'' world0))
                    = console world0 @ Log [LStr ''[HUBCLOUD]'', LStr ''https://example.org/drive/abc''] # rest"
    and iff: "Log [LStr ''[GDFLIX]'', LStr ''https://example.org/drive/abc''] \<in> set rest \<longleftrightarrow> S1 = []"
    using unclassified_fallback [OF c d] by blast
  from hub e have "S1 \<noteq> []" by simp
  with iff have "Log [LStr ''[GDFLIX]'', LStr ''https://example.org/drive/abc''] \<notin> set rest" by simp
  then have f: "Log [LStr ''[GDFLIX]'', LStr ''https://example.org/drive/abc'']
       \<notin> set (console (snd (resolveLink aggregator_site ''https://example.org/drive/abc'' world0)))"
    by (simp add: trace console_world0)
  from a b c d e f unclassified_fallback [OF a b] show ?thesis by blast
qed


section \<open>The file-host scenario\<close>

lemma fetchJson_fails:
  assumes "metadata_fetch_fails P fid (env w)"
  shows "\<exists>w'. fetchJson P (''https://pixeldrain.com/api/file/'' @ fid @ ''/info'') [] w = (Inr JNull, w')"
proof -
  obtain r e' where f: "fetch P (info_request fid) (env w) = (r, e')"
    by (cases "fetch P (info_request fid) (env w)")
  show ?thesis
  proof (cases r)
    case (Inl err)
    then show ?thesis
      using f by (simp add: fetchJson_def info_request_def try_catch_def bnd_def io_try_def ret_def)
  next
    case (Inr res)
    with assms f have "\<not> ok res \<or> isl (res_json res)"
      by (simp add: metadata_fetch_fails_def)
    then show ?thesis
      using f Inr
      by (cases "res_json res")
         (auto simp: fetchJson_def info_request_def try_catch_def bnd_def io_try_def ret_def
            of_result_def)
  qed
qed

lemma fetchJson_answers:
  assumes "metadata_is P fid (env w) info"
  shows "\<exists>w'. fetchJson P (''https://pixeldrain.com/api/file/'' @ fid @ ''/info'') [] w = (Inr info, w')"
proof -
  obtain r e' where f: "fetch P (info_request fid) (env w) = (r, e')"
    by (cases "fetch P (info_request fid) (env w)")
  from assms f obtain res where "r = Inr res" "ok res" "res_json res = Inr info"
    by (cases r) (auto simp: metadata_is_def)
  then show ?thesis
    using f by (simp add: fetchJson_def info_request_def try_catch_def bnd_def io_try_def ret_def
        of_result_def)
qed

text \<open>The answers on which reading \<^verbatim>\<open>info?.mime_type?.includes("video")\<close> throws: the
  objects whose \<^verbatim>\<open>mime_type\<close> is a boolean, a number or an object.\<close>

lemma includes_video_throws:
  "isl (includes_video (mime_type info)) \<longleftrightarrow>
     (\<exists>members v. info = JObject members \<and> map_of (rev members) ''mime_type'' = Some v
        \<and> ((\<exists>b. v = JBool b) \<or> (\<exists>n. v = JNumber n) \<or> (\<exists>ms. v = JObject ms)))"
  by (cases info) (auto simp: includes_video_def mime_type_def split: option.splits json.splits)

lemma includes_video_null: "includes_video (mime_type JNull) = Inr False"
  by (simp add: includes_video_def mime_type_def)

text \<open>What \<^verbatim>\<open>pixeldrainExtractor\<close> returns on a URL with a file id, from what
  \<^verbatim>\<open>fetchJson\<close> gave it.\<close>

lemma pixeldrain_run:
  assumes "file_id url = Some fid" and "fid \<noteq> []"
    and "fetchJson P (''https://pixeldrain.com/api/file/'' @ fid @ ''/info'') []
           (w\<lparr>console := console w @ [Log [LStr ''[PIXELDRAIN]'', LStr url]]\<rparr>) = (Inr info, w')"
  shows "fst (pixeldrainExtractor P url w) =
           (case includes_video (mime_type info) of
              Inl err \<Rightarrow> Inr []
            | Inr video \<Rightarrow>
                Inr [hd_candidate ''Pixeldrain'' (''https://pixeldrain.com/api/file/'' @ fid @ ''?download'')
                       (if video then Mp4 else Mkv)])"
proof -
  have g: "js_or (grp (js_match False rx_pd_u url) (Suc 0)) (grp (js_match False rx_pd_api url) (Suc 0))
             = Some fid"
    using assms(1) by (simp add: file_id_def)
  have t: "truthy (Some fid)"
    using assms(2) by (simp add: truthy_def)
  show ?thesis
    using assms(3) unfolding pixeldrainExtractor_def extractor_def
    by (cases "includes_video (mime_type info)")
       (simp_all add: try_catch_def bnd_def xlog_def in_world_def console_log_def g t
          Let_def push_def log_found_def get_def of_result_def console_error_def)
qed

lemma pixeldrain_metadata_fails:
  assumes "file_id url = Some fid" and "fid \<noteq> []" and "metadata_fetch_fails P fid (env w)"
  shows "fst (pixeldrainExtractor P url w)
           = Inr [hd_candidate ''Pixeldrain'' (''https://pixeldrain.com/api/file/'' @ fid @ ''?download'') Mkv]"
proof -
  obtain w' where "fetchJson P (''https://pixeldrain.com/api/file/'' @ fid @ ''/info'') []
           (w\<lparr>console := console w @ [Log [LStr ''[PIXELDRAIN]'', LStr url]]\<rparr>) = (Inr JNull, w')"
    using fetchJson_fails [of P fid "w\<lparr>console := console w @ [Log [LStr ''[PIXELDRAIN]'', LStr url]]\<rparr>"]
      assms(3) by auto
  from pixeldrain_run [OF assms(1,2) this] show ?thesis
    by (simp add: includes_video_null)
qed

lemma pixeldrain_metadata_is:
  assumes "file_id url = Some fid" and "fid \<noteq> []" and "metadata_is P fid (env w) info"
  shows "fst (pixeldrainExtractor P url w) =
           (case includes_video (mime_type info) of
              Inl err \<Rightarrow> Inr []
            | Inr video \<Rightarrow>
                Inr [hd_candidate ''Pixeldrain'' (''https://pixeldrain.com/api/file/'' @ fid @ ''?download'')
                       (if video then Mp4 else Mkv)])"
proof -
  obtain w' where "fetchJson P (''https://pixeldrain.com/api/file/'' @ fid @ ''/info'') []
           (w\<lparr>console := console w @ [Log [LStr ''[PIXELDRAIN]'', LStr url]]\<rparr>) = (Inr info, w')"
    using fetchJson_answers [of P fid "w\<lparr>console := console w @ [Log [LStr ''[PIXELDRAIN]'', LStr url]]\<rparr>" info]
      assms(3) by auto
  from pixeldrain_run [OF assms(1,2) this] show ?thesis .
qed


lemma rx_pd_u_needs_slash: "x \<noteq> CHR ''/'' \<Longrightarrow> rmatch False rx_pd_u (x # t) c = []"
  by (simp add: rx_pd_u_def lit_prefix_def startsWith_def)

lemma search_skip:
  "\<forall>x \<in> set pre. x \<noteq> CHR ''/'' \<Longrightarrow>
   search_from False rx_pd_u acc (pre @ t) = search_from False rx_pd_u (rev pre @ acc) t"
proof (induction pre arbitrary: acc)
  case Nil
  show ?case by simp
next
  case (Cons x pre)
  have "search_from False rx_pd_u acc ((x # pre) @ t) = search_from False rx_pd_u (x # acc) (pre @ t)"
    using Cons.prems by (subst search_from.simps) (simp add: rx_pd_u_needs_slash)
  also have "\<dots> = search_from False rx_pd_u (rev pre @ x # acc) t"
    using Cons.prems by (intro Cons.IH) simp
  finally show ?case by simp
qed

lemma search_slashes:
  assumes "y \<noteq> CHR ''/''"
  shows "search_from False rx_pd_u acc (CHR ''/'' # CHR ''/'' # x # y # t)
       = search_from False rx_pd_u (CHR ''/'' # CHR ''/'' # acc) (x # y # t)"
proof -
  have a: "rmatch False rx_pd_u (CHR ''/'' # CHR ''/'' # x # y # t) c = []" for c
    by (simp add: rx_pd_u_def lit_prefix_def startsWith_def)
  have b: "rmatch False rx_pd_u (CHR ''/'' # x # y # t) c = []" for c
    using assms by (simp add: rx_pd_u_def lit_prefix_def startsWith_def)
  have "search_from False rx_pd_u acc (CHR ''/'' # CHR ''/'' # x # y # t)
      = search_from False rx_pd_u (CHR ''/'' # acc) (CHR ''/'' # x # y # t)"
    by (subst search_from.simps) (simp add: a)
  also have "\<dots> = search_from False rx_pd_u (CHR ''/'' # CHR ''/'' # acc) (x # y # t)"
    by (subst search_from.simps) (simp add: b)
  finally show ?thesis .
qed

lemma rx_pd_u_abc123:
  "rmatch False rx_pd_u ''/u/abc123'' [None, None] =
     [([], [None, Some ''abc123'']), (''3'', [None, Some ''abc12'']), (''23'', [None, Some ''abc1'']),
      (''123'', [None, Some ''abc'']), (''c123'', [None, Some ''ab'']), (''bc123'', [None, Some ''a''])]"
  by code_simp

lemma ngroups_rx_pd_u: "ngroups rx_pd_u = 1"
  by code_simp

lemma pixeldrain_file_id:
  assumes "CHR ''/'' \<notin> set scheme" and "CHR ''/'' \<notin> set a" and "CHR ''/'' \<notin> set b"
  shows "grp (js_match False rx_pd_u (scheme @ ''://'' @ a @ ''pixeldrain'' @ b @ ''/u/abc123'')) 1
           = Some ''abc123''"
proof -
  let ?host = "a @ ''pixeldrain'' @ b"
  have host: "\<forall>x \<in> set ?host. x \<noteq> CHR ''/''" using assms by auto
  obtain x y t where h: "?host = x # y # t"
    by (cases ?host; cases "tl ?host") (auto simp: Cons_eq_append_conv)
  then have y: "y \<noteq> CHR ''/''" and rest: "\<forall>z \<in> set (x # y # t). z \<noteq> CHR ''/''"
    using host by (metis list.set_intros(1,2))+
  have pre: "\<forall>z \<in> set (scheme @ '':''). z \<noteq> CHR ''/''" using assms(1) by auto
  have "scheme @ ''://'' @ a @ ''pixeldrain'' @ b @ ''/u/abc123''
      = (scheme @ '':'') @ (CHR ''/'' # CHR ''/'' # (?host @ ''/u/abc123''))"
    by simp
  also have "\<dots> = (scheme @ '':'') @ (CHR ''/'' # CHR ''/'' # x # y # (t @ ''/u/abc123''))"
    by (subst h) simp
  finally have "search_from False rx_pd_u [] (scheme @ ''://'' @ a @ ''pixeldrain'' @ b @ ''/u/abc123'')
      = search_from False rx_pd_u [] ((scheme @ '':'') @ (CHR ''/'' # CHR ''/'' # x # y # (t @ ''/u/abc123'')))"
    by (rule arg_cong)
  also have "\<dots> = search_from False rx_pd_u (rev (scheme @ '':'') @ [])
        (CHR ''/'' # CHR ''/'' # x # y # (t @ ''/u/abc123''))"
    by (rule search_skip [OF pre])
  also have "\<dots> = search_from False rx_pd_u (CHR ''/'' # CHR ''/'' # rev (scheme @ '':'') @ [])
        ((x # y # t) @ ''/u/abc123'')"
    using search_slashes [OF y] by simp
  also have "\<dots> = search_from False rx_pd_u (rev (x # y # t) @ CHR ''/'' # CHR ''/'' # rev (scheme @ '':'') @ [])
        ''/u/abc123''"
    by (rule search_skip [OF rest])
  also have "\<dots> = Some \<lparr>before = rev (rev (x # y # t) @ CHR ''/'' # CHR ''/'' # rev (scheme @ '':'') @ []),
        groups = [Some ''/u/abc123'', Some ''abc123''], after = []\<rparr>"
    by (subst search_from.simps) (simp add: rx_pd_u_abc123 ngroups_rx_pd_u)
  finally show ?thesis
    by (simp add: js_match_def grp_def)
qed


lemma startsWith_append: "startsWith (t @ y) t"
  by (simp add: startsWith_def)

lemma str_includes_prefix: "str_includes (t @ y) t"
proof (cases "t @ y")
  case Nil
  then show ?thesis by simp
next
  case (Cons c cs)
  then show ?thesis by (metis startsWith_append str_includes.simps(2))
qed

lemma str_includes_middle: "str_includes (x @ t @ y) t"
  by (induction x) (simp_all add: str_includes_prefix)

lemma lower_pixeldrain: "toLowerCase ''pixeldrain'' = ''pixeldrain''"
  by code_simp

lemma pixeldrain_marker:
  "str_includes (toLowerCase (scheme @ ''://'' @ a @ ''pixeldrain'' @ b @ rest)) ''pixeldrain''"
proof -
  have "toLowerCase (scheme @ ''://'' @ a @ ''pixeldrain'' @ b @ rest)
      = (toLowerCase (scheme @ ''://'' @ a)) @ ''pixeldrain'' @ toLowerCase (b @ rest)"
    using lower_pixeldrain by (simp add: toLowerCase_def)
  then show ?thesis by (simp only: str_includes_middle)
qed

lemma deep_pixeldrain:
  "server c = ''Pixeldrain'' \<Longrightarrow> deepResolve P [c] [] w = (Inr [c], w)"
  by (simp add: ret_def)

text \<open>What \<^verbatim>\<open>resolveLink\<close> does with the result of \<^verbatim>\<open>pixeldrainExtractor\<close>, on a
  miss and a URL that holds \<open>pixeldrain\<close>.\<close>

lemma resolve_pixeldrain_one:
  assumes "getCachedStreams P url w = (Inr None, w0)"
    and "classify url = Some Pixeldrain"
    and "fst (pixeldrainExtractor P url w0) = Inr [hd_candidate ''Pixeldrain'' l t]"
  shows "fst (resolveLink P url w) = Inr [hd_candidate ''Pixeldrain'' l t]"
proof -
  have ex: "extractByHost P url = pixeldrainExtractor P url"
    using assms(2) by (simp add: extractByHost_classify)
  obtain w1 where run: "pixeldrainExtractor P url w0 = (Inr [hd_candidate ''Pixeldrain'' l t], w1)"
    using assms(3) by (cases "pixeldrainExtractor P url w0") auto
  have srv: "server (hd_candidate ''Pixeldrain'' l t) = ''Pixeldrain''"
    by (simp add: hd_candidate_def)
  show ?thesis
    by (simp add: resolveLink_def bnd_def assms(1) ex run finishResolve_def deep_pixeldrain [OF srv]
        setCacheStreams_def Let_def ret_def del: deepResolve.simps split: prod.splits)
qed

lemma resolve_pixeldrain_none:
  assumes "getCachedStreams P url w = (Inr None, w0)"
    and "classify url = Some Pixeldrain"
    and "fst (pixeldrainExtractor P url w0) = Inr []"
  shows "fst (resolveLink P url w) = Inr []
       \<and> cache_streams (snd (resolveLink P url w)) = cache_streams w"
proof -
  have ex: "extractByHost P url = pixeldrainExtractor P url"
    using assms(2) by (simp add: extractByHost_classify)
  obtain w1 where run: "pixeldrainExtractor P url w0 = (Inr [], w1)"
    using assms(3) by (cases "pixeldrainExtractor P url w0") auto
  have "enters (\<lambda>_. True) (Log [LStr ''[PIXELDRAIN]'', LStr url]) w0 (snd (pixeldrainExtractor P url w0))"
    by (rule enters_pixeldrain) simp
  then have c1: "cache_streams w1 = cache_streams w0"
    by (simp add: run enters_def)
  obtain hit e0 where "getCachedStreams P url w = (Inr hit, w\<lparr>env := e0\<rparr>)"
    using getCachedStreams_run [of P url w] by blast
  with assms(1) have c0: "cache_streams w0 = cache_streams w" by auto
  have "resolveLink P url w = (Inr [], w1)"
    by (simp add: resolveLink_def bnd_def assms(1) ex run finishResolve_def ret_def)
  with c0 c1 show ?thesis by simp
qed

text \<open>
  Claim C6, as stated, fails. The metadata endpoint answers the request for
  \<open>abc123\<close> with an object whose \<^verbatim>\<open>mime_type\<close> is the number 42: evaluating
  \<^verbatim>\<open>info?.mime_type?.includes("video")\<close> throws inside the \<^verbatim>\<open>try\<close> before anything is
  pushed, the extractor returns the empty list, and \<^verbatim>\<open>resolveLink\<close>, on the uncached URL
  \<open>https://pixeldrain.com/u/abc123\<close>, returns no candidate and caches nothing.
\<close>

theorem pixeldrain_odd_metadata:
  "fst (getCachedStreams (answering odd_info) ''https://pixeldrain.com/u/abc123'' world0) = Inr None
   \<and> str_includes ''https://pixeldrain.com/u/abc123'' ''pixeldrain''
   \<and> fst (fetchJson (answering odd_info) ''https://pixeldrain.com/api/file/abc123/info'' [] world0)
       = Inr odd_info
   \<and> isl (includes_video (mime_type odd_info))
   \<and> fst (pixeldrainExtractor (answering odd_info) ''https://pixeldrain.com/u/abc123'' world0) = Inr []
   \<and> fst (resolveLink (answering odd_info) ''https://pixeldrain.com/u/abc123'' world0) = Inr []
   \<and> cache_streams (snd (resolveLink (answering odd_info) ''https://pixeldrain.com/u/abc123'' world0)) = []"
  by code_simp

text \<open>
  Claim C6, amended. For every URL \<open>scheme://host/u/abc123\<close> whose host holds \<open>pixeldrain\<close>
  (no slash in scheme or host) and that has no fresh cache entry, what \<^verbatim>\<open>resolveLink\<close>
  returns is decided by the answer to the metadata request for \<open>abc123\<close>, made in the
  environment the cache lookup leaves:
  \<^item> when the request fails, exactly one candidate, with server \<open>"Pixeldrain"\<close>, link
    \<open>"https://pixeldrain.com/api/file/abc123?download"\<close> and kind mkv;
  \<^item> when it answers a JSON value on which \<^verbatim>\<open>info?.mime_type?.includes("video")\<close> has a
    value, exactly that candidate, of kind mp4 when the value is true and mkv otherwise;
  \<^item> when it answers a JSON value on which that expression throws (an object whose
    \<^verbatim>\<open>mime_type\<close> is a boolean, a number or an object), the empty list, and
    \<^verbatim>\<open>cache.streams\<close> is left as it was.
\<close>

theorem pixeldrain_scenario:
  assumes "CHR ''/'' \<notin> set scheme" and "CHR ''/'' \<notin> set a" and "CHR ''/'' \<notin> set b"
    and "url = scheme @ ''://'' @ a @ ''pixeldrain'' @ b @ ''/u/abc123''"
    and "getCachedStreams P url w = (Inr None, w0)"
  shows "(metadata_fetch_fails P ''abc123'' (env w0) \<longrightarrow>
            fst (resolveLink P url w)
              = Inr [hd_candidate ''Pixeldrain'' ''https://pixeldrain.com/api/file/abc123?download'' Mkv])
       \<and> (\<forall>info video.
            metadata_is P ''abc123'' (env w0) info \<and> includes_video (mime_type info) = Inr video \<longrightarrow>
            fst (resolveLink P url w)
              = Inr [hd_candidate ''Pixeldrain'' ''https://pixeldrain.com/api/file/abc123?download''
                       (if video then Mp4 else Mkv)])
       \<and> (\<forall>info.
            metadata_is P ''abc123'' (env w0) info \<and> isl (includes_video (mime_type info)) \<longrightarrow>
            fst (resolveLink P url w) = Inr []
            \<and> cache_streams (snd (resolveLink P url w)) = cache_streams w)"
proof -
  have cl: "classify url = Some Pixeldrain"
    using pixeldrain_marker [of scheme a b "''/u/abc123''"]
    by (simp add: classify_def markers_def assms(4))
  have "grp (js_match False rx_pd_u url) 1 = Some ''abc123''"
    unfolding assms(4) by (rule pixeldrain_file_id [OF assms(1-3)])
  then have id: "file_id url = Some ''abc123''"
    by (simp add: file_id_def js_or_def truthy_def)
  have ne: "''abc123'' \<noteq> []" by simp
  have one: "fst (resolveLink P url w)
              = Inr [hd_candidate ''Pixeldrain'' ''https://pixeldrain.com/api/file/abc123?download'' Mkv]"
    if "metadata_fetch_fails P ''abc123'' (env w0)"
    using pixeldrain_metadata_fails [OF id ne that]
    by (intro resolve_pixeldrain_one [OF assms(5) cl]) simp
  have two: "fst (resolveLink P url w)
              = Inr [hd_candidate ''Pixeldrain'' ''https://pixeldrain.com/api/file/abc123?download''
                       (if video then Mp4 else Mkv)]"
    if "metadata_is P ''abc123'' (env w0) info" and "includes_video (mime_type info) = Inr video"
    for info video
    using pixeldrain_metadata_is [OF id ne that(1)] that(2)
    by (intro resolve_pixeldrain_one [OF assms(5) cl]) simp
  have three: "fst (resolveLink P url w) = Inr []
            \<and> cache_streams (snd (resolveLink P url w)) = cache_streams w"
    if "metadata_is P ''abc123'' (env w0) info" and "isl (includes_video (mime_type info))"
    for info
  proof -
    from that(2) obtain err where "includes_video (mime_type info) = Inl err"
      by (cases "includes_video (mime_type info)") auto
    with pixeldrain_metadata_is [OF id ne that(1)]
    have "fst (pixeldrainExtractor P url w0) = Inr []" by simp
    then show ?thesis by (rule resolve_pixeldrain_none [OF assms(5) cl])
  qed
  from one two three show ?thesis by blast
qed

theorem pixeldrain_scenario_witness:
  "CHR ''/'' \<notin> set ''https'' \<and> CHR ''/'' \<notin> set ([] :: string) \<and> CHR ''/'' \<notin> set ''.com''
   \<and> ''https://pixeldrain.com/u/abc123'' = ''https'' @ ''://'' @ [] @ ''pixeldrain'' @ ''.com'' @ ''/u/abc123''
   \<and> getCachedStreams offline ''https://pixeldrain.com/u/abc123'' world0 = (Inr None, world0)
   \<and> metadata_fetch_fails offline ''abc123'' (env world0)
   \<and> fst (resolveLink offline ''https://pixeldrain.com/u/abc123'' world0)
       = Inr [hd_candidate ''Pixeldrain'' ''https://pixeldrain.com/api/file/abc123?download'' Mkv]
   \<and> getCachedStreams (answering video_info) ''https://pixeldrain.com/u/abc123'' world0 = (Inr None, world0)
   \<and> metadata_is (answering video_info) ''abc123'' (env world0) video_info
   \<and> includes_video (mime_type video_info) = Inr True
   \<and> fst (resolveLink (answering video_info) ''https://pixeldrain.com/u/abc123'' world0)
       = Inr [hd_candidate ''Pixeldrain'' ''https://pixeldrain.com/api/file/abc123?download'' Mp4]
   \<and> getCachedStreams (answering odd_info) ''https://pixeldrain.com/u/abc123'' world0 = (Inr None, world0)
   \<and> metadata_is (answering odd_info) ''abc123'' (env world0) odd_info
   \<and> isl (includes_video (mime_type odd_info))
   \<and> fst (resolveLink (answering odd_info) ''https://pixeldrain.com/u/abc123'' world0) = Inr []
   \<and> cache_streams (snd (resolveLink (answering odd_info) ''https://pixeldrain.com/u/abc123'' world0))
       = cache_streams world0"
proof -
  have a: "CHR ''/'' \<notin> set ''https''" and b: "CHR ''/'' \<notin> set ([] :: string)" and c: "CHR ''/'' \<notin> set ''.com''"
    by simp_all
  have d: "''https://pixeldrain.com/u/abc123'' = ''https'' @ ''://'' @ [] @ ''pixeldrain'' @ ''.com'' @ ''/u/abc123''"
    by simp
  have e1: "getCachedStreams offline ''https://pixeldrain.com/u/abc123'' world0 = (Inr None, world0)"
    by code_simp
  have e2: "getCachedStreams (answering video_info) ''https://pixeldrain.com/u/abc123'' world0 = (Inr None, world0)"
    by code_simp
  have e3: "getCachedStreams (answering odd_info) ''https://pixeldrain.com/u/abc123'' world0 = (Inr None, world0)"
    by code_simp
  have f1: "metadata_fetch_fails offline ''abc123'' (env world0)"
    by code_simp
  have f2: "metadata_is (answering video_info) ''abc123'' (env world0) video_info"
    by code_simp
  have f3: "metadata_is (answering odd_info) ''abc123'' (env world0) odd_info"
    by code_simp
  have g2: "includes_video (mime_type video_info) = Inr True"
    by code_simp
  have g3: "isl (includes_video (mime_type odd_info))"
    by code_simp
  note r1 = pixeldrain_scenario [OF a b c d e1, THEN conjunct1, rule_format, OF f1]
  note r2 = pixeldrain_scenario [OF a b c d e2, THEN conjunct2, THEN conjunct1, rule_format,
      OF conjI [OF f2 g2], simplified if_True]
  note r3 = pixeldrain_scenario [OF a b c d e3, THEN conjunct2, THEN conjunct2, rule_format,
      OF conjI [OF f3 g3]]
  show ?thesis
    by (intro conjI a b c d e1 e2 e3 f1 f2 f3 g2 g3 r1 r2 r3 [THEN conjunct1] r3 [THEN conjunct2])
qed


section \<open>Failures inside the extractors\<close>

lemma fetchHtml_fails:
  assumes "page_fetch_fails P url (env w)"
  shows "\<exists>w'. fetchHtml P url [] w = (Inr None, w')"
proof -
  let ?req = "\<lparr>req_url = url, req_headers = spread defaultHeaders [], req_timeout = Some 15000\<rparr>"
  obtain r e' where f: "fetch P ?req (env w) = (r, e')" by (cases "fetch P ?req (env w)")
  show ?thesis
  proof (cases r)
    case (Inl err)
    then show ?thesis
      by (simp add: fetchHtml_def bnd_def console_log_def try_catch_def io_try_def f
          console_error_def ret_def)
  next
    case (Inr res)
    with assms f have "\<not> ok res \<or> isl (res_text res)" by (simp add: page_fetch_fails_def)
    then show ?thesis
      by (cases "res_text res")
         (auto simp: fetchHtml_def bnd_def console_log_def try_catch_def io_try_def f Inr
          console_error_def ret_def of_result_def)
  qed
qed

lemma fetchHtml_page:
  assumes "page_is P url (env w) html"
  shows "\<exists>w'. fetchHtml P url [] w = (Inr (Some html), w')"
proof -
  let ?req = "\<lparr>req_url = url, req_headers = spread defaultHeaders [], req_timeout = Some 15000\<rparr>"
  obtain r e' where f: "fetch P ?req (env w) = (r, e')" by (cases "fetch P ?req (env w)")
  from assms f obtain res where "r = Inr res" "ok res" "res_text res = Inr html"
    by (cases r) (auto simp: page_is_def)
  then show ?thesis
    by (simp add: fetchHtml_def bnd_def console_log_def try_catch_def io_try_def f
          ret_def of_result_def)
qed

lemma streamtape_fetch_fails:
  assumes "page_fetch_fails P url (env w)"
  shows "fst (streamtapeExtractor P url w) = Inr []"
proof -
  obtain w' where f: "fetchHtml P url [] (w\<lparr>console := console w @ [Log [LStr ''[STREAMTAPE]'', LStr url]]\<rparr>) = (Inr None, w')"
    using fetchHtml_fails [of P url "w\<lparr>console := console w @ [Log [LStr ''[STREAMTAPE]'', LStr url]]\<rparr>"] assms
    by auto
  show ?thesis
    unfolding streamtapeExtractor_def extractor_def
    by (simp add: try_catch_def bnd_def xlog_def in_world_def console_log_def f truthy_def ret_def)
qed

lemma streamtape_no_markup:
  assumes "page_is P url (env w) html"
    and "js_match False rx_st_robot html = None" and "js_match False rx_st_norobot html = None"
  shows "fst (streamtapeExtractor P url w) = Inr []"
proof -
  obtain w' where f: "fetchHtml P url [] (w\<lparr>console := console w @ [Log [LStr ''[STREAMTAPE]'', LStr url]]\<rparr>) = (Inr (Some html), w')"
    using fetchHtml_page [of P url "w\<lparr>console := console w @ [Log [LStr ''[STREAMTAPE]'', LStr url]]\<rparr>" html] assms(1)
    by auto
  show ?thesis
    unfolding streamtapeExtractor_def extractor_def
    by (simp add: try_catch_def bnd_def xlog_def in_world_def console_log_def f truthy_def ret_def
        assms(2,3) Let_def get_def log_found_def)
qed


lemma filemoon_fetch_fails:
  assumes "page_fetch_fails P url (env w)"
  shows "fst (filemoonExtractor P url w) = Inr []"
proof -
  obtain w' where f: "fetchHtml P url [] (w\<lparr>console := console w @ [Log [LStr ''[FILEMOON]'', LStr url]]\<rparr>) = (Inr None, w')"
    using fetchHtml_fails [of P "url" "w\<lparr>console := console w @ [Log [LStr ''[FILEMOON]'', LStr url]]\<rparr>"] assms
    by auto
  show ?thesis
    unfolding filemoonExtractor_def extractor_def
    by (simp add: try_catch_def bnd_def xlog_def in_world_def console_log_def f truthy_def ret_def Let_def)
qed

lemma mixdrop_fetch_fails:
  assumes "page_fetch_fails P url (env w)"
  shows "fst (mixdropExtractor P url w) = Inr []"
proof -
  obtain w' where f: "fetchHtml P url [] (w\<lparr>console := console w @ [Log [LStr ''[MIXDROP]'', LStr url]]\<rparr>) = (Inr None, w')"
    using fetchHtml_fails [of P "url" "w\<lparr>console := console w @ [Log [LStr ''[MIXDROP]'', LStr url]]\<rparr>"] assms
    by auto
  show ?thesis
    unfolding mixdropExtractor_def extractor_def
    by (simp add: try_catch_def bnd_def xlog_def in_world_def console_log_def f truthy_def ret_def Let_def)
qed

lemma hubcloud_fetch_fails:
  assumes "page_fetch_fails P url (env w)"
  shows "fst (hubcloudExtractor P url w) = Inr []"
proof -
  obtain w' where f: "fetchHtml P url [] (w\<lparr>console := console w @ [Log [LStr ''[HUBCLOUD]'', LStr url]]\<rparr>) = (Inr None, w')"
    using fetchHtml_fails [of P "url" "w\<lparr>console := console w @ [Log [LStr ''[HUBCLOUD]'', LStr url]]\<rparr>"] assms
    by auto
  show ?thesis
    unfolding hubcloudExtractor_def extractor_def
    by (simp add: try_catch_def bnd_def xlog_def in_world_def console_log_def f truthy_def ret_def Let_def)
qed

lemma gdflix_fetch_fails:
  assumes "page_fetch_fails P url (env w)"
  shows "fst (gdflixExtractor P url w) = Inr []"
proof -
  obtain w' where f: "fetchHtml P url [] (w\<lparr>console := console w @ [Log [LStr ''[GDFLIX]'', LStr url]]\<rparr>) = (Inr None, w')"
    using fetchHtml_fails [of P "url" "w\<lparr>console := console w @ [Log [LStr ''[GDFLIX]'', LStr url]]\<rparr>"] assms
    by auto
  show ?thesis
    unfolding gdflixExtractor_def extractor_def
    by (simp add: try_catch_def bnd_def xlog_def in_world_def console_log_def f truthy_def ret_def Let_def)
qed

lemma doodstream_fetch_fails:
  assumes "page_fetch_fails P (js_replace False rx_dood_host ''dood.li'' url) (env w)"
  shows "fst (doodstreamExtractor P url w) = Inr []"
proof -
  obtain w' where f: "fetchHtml P (js_replace False rx_dood_host ''dood.li'' url) [] (w\<lparr>console := console w @ [Log [LStr ''[DOODSTREAM]'', LStr url]]\<rparr>) = (Inr None, w')"
    using fetchHtml_fails [of P "js_replace False rx_dood_host ''dood.li'' url" "w\<lparr>console := console w @ [Log [LStr ''[DOODSTREAM]'', LStr url]]\<rparr>"] assms
    by auto
  show ?thesis
    unfolding doodstreamExtractor_def extractor_def
    by (simp add: try_catch_def bnd_def xlog_def in_world_def console_log_def f truthy_def ret_def Let_def)
qed

lemma doodstream_no_markup:
  assumes "page_is P (js_replace False rx_dood_host ''dood.li'' url) (env w) html"
    and "js_match False rx_dood_pass html = None"
  shows "fst (doodstreamExtractor P url w) = Inr []"
proof -
  obtain w' where f: "fetchHtml P (js_replace False rx_dood_host ''dood.li'' url) [] (w\<lparr>console := console w @ [Log [LStr ''[DOODSTREAM]'', LStr url]]\<rparr>) = (Inr (Some html), w')"
    using fetchHtml_page [of P "js_replace False rx_dood_host ''dood.li'' url" "w\<lparr>console := console w @ [Log [LStr ''[DOODSTREAM]'', LStr url]]\<rparr>" html] assms(1)
    by auto
  show ?thesis
    unfolding doodstreamExtractor_def extractor_def
    by (simp add: try_catch_def bnd_def xlog_def in_world_def console_log_def f truthy_def ret_def
        assms(2-2) Let_def get_def log_found_def)
qed

lemma filemoon_no_markup:
  assumes "page_is P url (env w) html"
    and "js_match True rx_fm_file html = None"
    and "js_match True rx_fm_sources html = None"
    and "js_match_all True rx_m3u8_url html = None"
  shows "fst (filemoonExtractor P url w) = Inr []"
proof -
  obtain w' where f: "fetchHtml P url [] (w\<lparr>console := console w @ [Log [LStr ''[FILEMOON]'', LStr url]]\<rparr>) = (Inr (Some html), w')"
    using fetchHtml_page [of P "url" "w\<lparr>console := console w @ [Log [LStr ''[FILEMOON]'', LStr url]]\<rparr>" html] assms(1)
    by auto
  show ?thesis
    unfolding filemoonExtractor_def extractor_def
    by (simp add: try_catch_def bnd_def xlog_def in_world_def console_log_def f truthy_def ret_def
        assms(2-4) Let_def get_def log_found_def)
qed

lemma mixdrop_no_markup:
  assumes "page_is P url (env w) html"
    and "js_match False rx_md_wurl html = None"
  shows "fst (mixdropExtractor P url w) = Inr []"
proof -
  obtain w' where f: "fetchHtml P url [] (w\<lparr>console := console w @ [Log [LStr ''[MIXDROP]'', LStr url]]\<rparr>) = (Inr (Some html), w')"
    using fetchHtml_page [of P "url" "w\<lparr>console := console w @ [Log [LStr ''[MIXDROP]'', LStr url]]\<rparr>" html] assms(1)
    by auto
  show ?thesis
    unfolding mixdropExtractor_def extractor_def
    by (simp add: try_catch_def bnd_def xlog_def in_world_def console_log_def f truthy_def ret_def
        assms(2-2) Let_def get_def log_found_def)
qed

lemma pixeldrain_no_id:
  assumes "js_match False rx_pd_u url = None" and "js_match False rx_pd_api url = None"
  shows "fst (pixeldrainExtractor P url w) = Inr []"
  unfolding pixeldrainExtractor_def extractor_def
  by (simp add: try_catch_def bnd_def xlog_def in_world_def console_log_def truthy_def ret_def
        assms Let_def get_def log_found_def grp_def js_or_def)

lemma hubcloud_no_markup:
  assumes "page_is P url (env w) html"
    and "js_match False rx_var_url html = None" and "js_match False rx_loc_replace html = None"
    and "js_match False rx_win_loc html = None"
    and "selects_nothing P html hubcloud_selectors"
    and "js_match_all True rx_media_url html = None"
  shows "fst (hubcloudExtractor P url w) = Inr []"
proof -
  obtain w' where f: "fetchHtml P url [] (w\<lparr>console := console w @ [Log [LStr ''[HUBCLOUD]'', LStr url]]\<rparr>) = (Inr (Some html), w')"
    using fetchHtml_page [of P "url" "w\<lparr>console := console w @ [Log [LStr ''[HUBCLOUD]'', LStr url]]\<rparr>" html] assms(1)
    by auto
  show ?thesis
  proof (cases "cheerio_load P html")
    case (Inl e)
    then show ?thesis
      unfolding hubcloudExtractor_def extractor_def
      by (simp add: try_catch_def bnd_def xlog_def in_world_def console_log_def f truthy_def ret_def
        Let_def of_result_def console_error_def)
  next
    case (Inr d)
    with assms(5) have "list_all (\<lambda>sel. cheerio_select P d sel = Inr []) hubcloud_selectors"
      by (simp add: selects_nothing_def)
    then show ?thesis
      unfolding hubcloudExtractor_def extractor_def
      by (simp add: hubcloud_selectors_def try_catch_def bnd_def xlog_def in_world_def console_log_def
        f truthy_def ret_def assms(2-4,6) Let_def get_def log_found_def grp_def of_result_def Inr)
  qed
qed

lemma gdflix_no_markup:
  assumes "page_is P url (env w) html"
    and "js_match False rx_loc_replace html = None" and "js_match False rx_win_loc html = None"
    and "selects_nothing P html gdflix_queries"
    and "no_media_in_document P html"
  shows "fst (gdflixExtractor P url w) = Inr []"
proof -
  obtain w' where f: "fetchHtml P url [] (w\<lparr>console := console w @ [Log [LStr ''[GDFLIX]'', LStr url]]\<rparr>) = (Inr (Some html), w')"
    using fetchHtml_page [of P "url" "w\<lparr>console := console w @ [Log [LStr ''[GDFLIX]'', LStr url]]\<rparr>" html] assms(1)
    by auto
  show ?thesis
  proof (cases "cheerio_load P html")
    case (Inl e)
    then show ?thesis
      unfolding gdflixExtractor_def extractor_def
      by (simp add: try_catch_def bnd_def xlog_def in_world_def console_log_def f truthy_def ret_def
        Let_def of_result_def console_error_def)
  next
    case (Inr d)
    with assms(5) have page: "(case cheerio_html P d of Inl e \<Rightarrow> True
               | Inr None \<Rightarrow> True
               | Inr (Some t) \<Rightarrow> js_match_all True rx_media_url t = None)"
      by (simp add: no_media_in_document_def)
    from Inr assms(4) have "list_all (\<lambda>sel. cheerio_select P d sel = Inr []) gdflix_queries"
      by (simp add: selects_nothing_def)
    then show ?thesis
      unfolding gdflixExtractor_def extractor_def
      using page
      by (auto simp: gdflix_queries_def gdflix_selectors_def first_href_def
        try_catch_def bnd_def xlog_def in_world_def console_log_def f truthy_def ret_def
        assms(2,3) Let_def get_def log_found_def grp_def of_result_def console_error_def Inr
        split: sum.splits option.splits)
  qed
qed


section \<open>What the extractors emit\<close>

text \<open>
  Claim C2. The claim: every candidate an extractor emits has an absolute URL as its link.
  \<^verbatim>\<open>filemoonExtractor\<close> emits the captured \<^verbatim>\<open>file\<close> value as it stands, and
  \<^verbatim>\<open>hubcloudExtractor\<close> the \<^verbatim>\<open>href\<close> as it stands: on a player page whose source is
  \<open>"/hls/abc/master.m3u8"\<close> and on a page whose download button has
  \<open>href="/dl/movie.mkv"\<close> the emitted links are these paths, and \<^verbatim>\<open>resolveLink\<close>
  returns (and caches) the candidate with the path as its link.
\<close>

theorem relative_links_emitted:
  "fst (filemoonExtractor (serving [(''https://filemoon.sx/e/abc'', filemoon_page)] [])
          ''https://filemoon.sx/e/abc'' world0)
     = Inr [hd_candidate ''Filemoon'' ''/hls/abc/master.m3u8'' M3u8]
   \<and> fst (hubcloudExtractor aggregator_site ''https://hubcloud.one/drive/abc'' world0)
     = Inr [hd_candidate ''Direct'' ''/dl/movie.mkv'' Mkv]
   \<and> fst (resolveLink aggregator_site ''https://hubcloud.one/drive/abc'' world0)
     = Inr [hd_candidate ''Direct'' ''/dl/movie.mkv'' Mkv]"
  by code_simp

text \<open>
  Claim C8, as stated, fails: with the network down, the metadata fetch of
  \<^verbatim>\<open>pixeldrainExtractor\<close> fails (\<^verbatim>\<open>fetchJson\<close> gives \<^verbatim>\<open>null\<close>) and the extractor
  still returns its candidate, not the empty list.
\<close>

theorem pixeldrain_keeps_candidate_offline:
  "fst (fetchJson offline ''https://pixeldrain.com/api/file/abc123/info'' [] world0) = Inr JNull
   \<and> fst (pixeldrainExtractor offline ''https://pixeldrain.com/u/abc123'' world0)
       = Inr [hd_candidate ''Pixeldrain'' ''https://pixeldrain.com/api/file/abc123?download'' Mkv]
   \<and> fst (pixeldrainExtractor offline ''https://pixeldrain.com/u/abc123'' world0) \<noteq> Inr []"
  by code_simp

text \<open>
  Claim C8, amended. Every extractor returns a list, for every URL, environment and world:
  it never throws. When the fetch of the page it is given fails, each of the six extractors
  that fetch a page returns the empty list (doodstream fetches the URL with its host
  normalised). When the input has none of the patterns an extractor looks for (no file id in
  the URL for pixeldrain; for the others a fetched page that matches none of its regular
  expressions, and for hubcloud and gdflix also a page in whose document the selectors of
  the extractor select no element, and no media URL in the text), it returns the empty list.
  For pixeldrain on a URL with a file id \<open>fid\<close>: when the metadata request fails the
  extractor returns its one candidate all the same, with link
  \<open>https://pixeldrain.com/api/file/fid?download\<close> and kind mkv; when the request answers a
  JSON value on which \<^verbatim>\<open>info?.mime_type?.includes("video")\<close> throws, it returns the empty
  list.
\<close>

theorem extractors_absorb_failures:
  "(\<exists>r w'. pixeldrainExtractor P url w = (Inr r, w'))
   \<and> (\<exists>r w'. streamtapeExtractor P url w = (Inr r, w'))
   \<and> (\<exists>r w'. doodstreamExtractor P url w = (Inr r, w'))
   \<and> (\<exists>r w'. filemoonExtractor P url w = (Inr r, w'))
   \<and> (\<exists>r w'. mixdropExtractor P url w = (Inr r, w'))
   \<and> (\<exists>r w'. hubcloudExtractor P url w = (Inr r, w'))
   \<and> (\<exists>r w'. gdflixExtractor P url w = (Inr r, w'))
   \<and> (page_fetch_fails P url (env w) \<longrightarrow>
          fst (streamtapeExtractor P url w) = Inr [] \<and> fst (filemoonExtractor P url w) = Inr []
        \<and> fst (mixdropExtractor P url w) = Inr [] \<and> fst (hubcloudExtractor P url w) = Inr []
        \<and> fst (gdflixExtractor P url w) = Inr [])
   \<and> (page_fetch_fails P (js_replace False rx_dood_host ''dood.li'' url) (env w) \<longrightarrow>
          fst (doodstreamExtractor P url w) = Inr [])
   \<and> (js_match False rx_pd_u url = None \<and> js_match False rx_pd_api url = None \<longrightarrow>
          fst (pixeldrainExtractor P url w) = Inr [])
   \<and> (page_is P url (env w) html \<and> js_match False rx_st_robot html = None
          \<and> js_match False rx_st_norobot html = None \<longrightarrow>
          fst (streamtapeExtractor P url w) = Inr [])
   \<and> (page_is P (js_replace False rx_dood_host ''dood.li'' url) (env w) html
          \<and> js_match False rx_dood_pass html = None \<longrightarrow>
          fst (doodstreamExtractor P url w) = Inr [])
   \<and> (page_is P url (env w) html \<and> js_match True rx_fm_file html = None
          \<and> js_match True rx_fm_sources html = None
          \<and> js_match_all True rx_m3u8_url html = None \<longrightarrow>
          fst (filemoonExtractor P url w) = Inr [])
   \<and> (page_is P url (env w) html \<and> js_match False rx_md_wurl html = None \<longrightarrow>
          fst (mixdropExtractor P url w) = Inr [])
   \<and> (page_is P url (env w) html \<and> js_match False rx_var_url html = None
          \<and> js_match False rx_loc_replace html = None \<and> js_match False rx_win_loc html = None
          \<and> selects_nothing P html hubcloud_selectors
          \<and> js_match_all True rx_media_url html = None \<longrightarrow>
          fst (hubcloudExtractor P url w) = Inr [])
   \<and> (page_is P url (env w) html \<and> js_match False rx_loc_replace html = None
          \<and> js_match False rx_win_loc html = None
          \<and> selects_nothing P html gdflix_queries
          \<and> no_media_in_document P html \<longrightarrow>
          fst (gdflixExtractor P url w) = Inr [])
   \<and> (file_id url = Some fid \<and> fid \<noteq> [] \<and> metadata_fetch_fails P fid (env w) \<longrightarrow>
          fst (pixeldrainExtractor P url w)
            = Inr [hd_candidate ''Pixeldrain'' (''https://pixeldrain.com/api/file/'' @ fid @ ''?download'') Mkv])
   \<and> (file_id url = Some fid \<and> fid \<noteq> [] \<and> metadata_is P fid (env w) info
          \<and> isl (includes_video (mime_type info)) \<longrightarrow>
          fst (pixeldrainExtractor P url w) = Inr [])"
proof -
  note returns = extractor_of_returns [of Pixeldrain P url w, simplified]
    extractor_of_returns [of Streamtape P url w, simplified]
    extractor_of_returns [of Doodstream P url w, simplified]
    extractor_of_returns [of Filemoon P url w, simplified]
    extractor_of_returns [of Mixdrop P url w, simplified]
    extractor_of_returns [of Hubcloud P url w, simplified]
    extractor_of_returns [of Gdflix P url w, simplified]
  have throws: "fst (pixeldrainExtractor P url w) = Inr []"
    if "file_id url = Some fid" and "fid \<noteq> []" and "metadata_is P fid (env w) info"
      and "isl (includes_video (mime_type info))"
  proof -
    from that(4) obtain err where "includes_video (mime_type info) = Inl err"
      by (cases "includes_video (mime_type info)") auto
    with pixeldrain_metadata_is [OF that(1-3)] show ?thesis by simp
  qed
  show ?thesis
    by (intro conjI impI returns; (elim conjE)?;
        (rule streamtape_fetch_fails filemoon_fetch_fails mixdrop_fetch_fails hubcloud_fetch_fails
          gdflix_fetch_fails doodstream_fetch_fails pixeldrain_no_id streamtape_no_markup
          doodstream_no_markup filemoon_no_markup mixdrop_no_markup hubcloud_no_markup
          gdflix_no_markup pixeldrain_metadata_fails throws; assumption))
qed

theorem extractors_absorb_failures_witness:
  "page_fetch_fails offline ''https://example.com/x'' (env world0)
   \<and> page_fetch_fails offline (js_replace False rx_dood_host ''dood.li'' ''https://example.com/x'') (env world0)
   \<and> fst (streamtapeExtractor offline ''https://example.com/x'' world0) = Inr []
   \<and> fst (doodstreamExtractor offline ''https://example.com/x'' world0) = Inr []
   \<and> fst (filemoonExtractor offline ''https://example.com/x'' world0) = Inr []
   \<and> fst (mixdropExtractor offline ''https://example.com/x'' world0) = Inr []
   \<and> fst (hubcloudExtractor offline ''https://example.com/x'' world0) = Inr []
   \<and> fst (gdflixExtractor offline ''https://example.com/x'' world0) = Inr []
   \<and> js_match False rx_pd_u ''https://example.com/x'' = None
   \<and> js_match False rx_pd_api ''https://example.com/x'' = None
   \<and> fst (pixeldrainExtractor blank_site ''https://example.com/x'' world0) = Inr []
   \<and> page_is blank_site ''https://example.com/x'' (env world0) blank_page
   \<and> page_is blank_site (js_replace False rx_dood_host ''dood.li'' ''https://example.com/x'') (env world0) blank_page
   \<and> js_match False rx_st_robot blank_page = None \<and> js_match False rx_st_norobot blank_page = None
   \<and> js_match False rx_dood_pass blank_page = None
   \<and> js_match True rx_fm_file blank_page = None \<and> js_match True rx_fm_sources blank_page = None
   \<and> js_match_all True rx_m3u8_url blank_page = None
   \<and> js_match False rx_md_wurl blank_page = None
   \<and> js_match False rx_var_url blank_page = None \<and> js_match False rx_loc_replace blank_page = None
   \<and> js_match False rx_win_loc blank_page = None
   \<and> selects_nothing blank_site blank_page hubcloud_selectors
   \<and> selects_nothing blank_site blank_page gdflix_queries
   \<and> \<not> selects_nothing blank_site hubcloud_page hubcloud_selectors
   \<and> js_match_all True rx_media_url blank_page = None
   \<and> no_media_in_document blank_site blank_page
   \<and> fst (streamtapeExtractor blank_site ''https://example.com/x'' world0) = Inr []
   \<and> fst (doodstreamExtractor blank_site ''https://example.com/x'' world0) = Inr []
   \<and> fst (filemoonExtractor blank_site ''https://example.com/x'' world0) = Inr []
   \<and> fst (mixdropExtractor blank_site ''https://example.com/x'' world0) = Inr []
   \<and> fst (hubcloudExtractor blank_site ''https://example.com/x'' world0) = Inr []
   \<and> fst (gdflixExtractor blank_site ''https://example.com/x'' world0) = Inr []
   \<and> file_id ''https://pixeldrain.com/u/abc123'' = Some ''abc123''
   \<and> metadata_fetch_fails offline ''abc123'' (env world0)
   \<and> fst (pixeldrainExtractor offline ''https://pixeldrain.com/u/abc123'' world0)
       = Inr [hd_candidate ''Pixeldrain'' ''https://pixeldrain.com/api/file/abc123?download'' Mkv]
   \<and> metadata_is (answering odd_info) ''abc123'' (env world0) odd_info
   \<and> isl (includes_video (mime_type odd_info))
   \<and> fst (pixeldrainExtractor (answering odd_info) ''https://pixeldrain.com/u/abc123'' world0) = Inr []"
proof -
  have f1: "page_fetch_fails offline ''https://example.com/x'' (env world0)"
    by code_simp
  have f2: "page_fetch_fails offline (js_replace False rx_dood_host ''dood.li'' ''https://example.com/x'') (env world0)"
    by code_simp
  have p1: "js_match False rx_pd_u ''https://example.com/x'' = None"
    and p2: "js_match False rx_pd_api ''https://example.com/x'' = None"
    by code_simp+
  have g1: "page_is blank_site ''https://example.com/x'' (env world0) blank_page"
    by code_simp
  have g2: "page_is blank_site (js_replace False rx_dood_host ''dood.li'' ''https://example.com/x'') (env world0) blank_page"
    by code_simp
  have m1: "js_match False rx_st_robot blank_page = None"
    and m2: "js_match False rx_st_norobot blank_page = None"
    and m3: "js_match False rx_dood_pass blank_page = None"
    and m4: "js_match True rx_fm_file blank_page = None"
    and m5: "js_match True rx_fm_sources blank_page = None"
    and m6: "js_match_all True rx_m3u8_url blank_page = None"
    and m7: "js_match False rx_md_wurl blank_page = None"
    and m8: "js_match False rx_var_url blank_page = None"
    and m9: "js_match False rx_loc_replace blank_page = None"
    and m10: "js_match False rx_win_loc blank_page = None"
    and m11: "js_match_all True rx_media_url blank_page = None"
    by code_simp+
  have s1: "selects_nothing blank_site blank_page hubcloud_selectors"
    by code_simp
  have s2: "selects_nothing blank_site blank_page gdflix_queries"
    by code_simp
  have s3: "\<not> selects_nothing blank_site hubcloud_page hubcloud_selectors"
    by code_simp
  have n1: "no_media_in_document blank_site blank_page"
    by code_simp
  have i1: "file_id ''https://pixeldrain.com/u/abc123'' = Some ''abc123''"
    by code_simp
  have i2: "''abc123'' \<noteq> []"
    by simp
  have k1: "metadata_fetch_fails offline ''abc123'' (env world0)"
    by code_simp
  have k2: "metadata_is (answering odd_info) ''abc123'' (env world0) odd_info"
    by code_simp
  have k3: "isl (includes_video (mime_type odd_info))"
    by code_simp
  note a = extractors_absorb_failures [of offline "''https://example.com/x''" world0 blank_page, THEN conjunct2, THEN conjunct2, THEN conjunct2, THEN conjunct2, THEN conjunct2, THEN conjunct2, THEN conjunct2, THEN conjunct1, rule_format, OF f1]
  note b = extractors_absorb_failures [of offline "''https://example.com/x''" world0 blank_page, THEN conjunct2, THEN conjunct2, THEN conjunct2, THEN conjunct2, THEN conjunct2, THEN conjunct2, THEN conjunct2, THEN conjunct2, THEN conjunct1, rule_format, OF f2]
  note c = extractors_absorb_failures [of blank_site "''https://example.com/x''" world0 blank_page, THEN conjunct2, THEN conjunct2, THEN conjunct2, THEN conjunct2, THEN conjunct2, THEN conjunct2, THEN conjunct2, THEN conjunct2, THEN conjunct2, THEN conjunct1, rule_format, OF conjI [OF p1 p2]]
  note d = extractors_absorb_failures [of blank_site "''https://example.com/x''" world0 blank_page, THEN conjunct2, THEN conjunct2, THEN conjunct2, THEN conjunct2, THEN conjunct2, THEN conjunct2, THEN conjunct2, THEN conjunct2, THEN conjunct2, THEN conjunct2, THEN conjunct1, rule_format, OF conjI [OF g1 conjI [OF m1 m2]]]
  note e = extractors_absorb_failures [of blank_site "''https://example.com/x''" world0 blank_page, THEN conjunct2, THEN conjunct2, THEN conjunct2, THEN conjunct2, THEN conjunct2, THEN conjunct2, THEN conjunct2, THEN conjunct2, THEN conjunct2, THEN conjunct2, THEN conjunct2, THEN conjunct1, rule_format, OF conjI [OF g2 m3]]
  note f = extractors_absorb_failures [of blank_site "''https://example.com/x''" world0 blank_page, THEN conjunct2, THEN conjunct2, THEN conjunct2, THEN conjunct2, THEN conjunct2, THEN conjunct2, THEN conjunct2, THEN conjunct2, THEN conjunct2, THEN conjunct2, THEN conjunct2, THEN conjunct2, THEN conjunct1, rule_format, OF conjI [OF g1 conjI [OF m4 conjI [OF m5 m6]]]]
  note g = extractors_absorb_failures [of blank_site "''https://example.com/x''" world0 blank_page, THEN conjunct2, THEN conjunct2, THEN conjunct2, THEN conjunct2, THEN conjunct2, THEN conjunct2, THEN conjunct2, THEN conjunct2, THEN conjunct2, THEN conjunct2, THEN conjunct2, THEN conjunct2, THEN conjunct2, THEN conjunct1, rule_format, OF conjI [OF g1 m7]]
  note h = extractors_absorb_failures [of blank_site "''https://example.com/x''" world0 blank_page, THEN conjunct2, THEN conjunct2, THEN conjunct2, THEN conjunct2, THEN conjunct2, THEN conjunct2, THEN conjunct2, THEN conjunct2, THEN conjunct2, THEN conjunct2, THEN conjunct2, THEN conjunct2, THEN conjunct2, THEN conjunct2, THEN conjunct1, rule_format, OF conjI [OF g1 conjI [OF m8 conjI [OF m9 conjI [OF m10 conjI [OF s1 m11]]]]]]
  note i = extractors_absorb_failures [of blank_site "''https://example.com/x''" world0 blank_page, THEN conjunct2, THEN conjunct2, THEN conjunct2, THEN conjunct2, THEN conjunct2, THEN conjunct2, THEN conjunct2, THEN conjunct2, THEN conjunct2, THEN conjunct2, THEN conjunct2, THEN conjunct2, THEN conjunct2, THEN conjunct2, THEN conjunct2, THEN conjunct1, rule_format, OF conjI [OF g1 conjI [OF m9 conjI [OF m10 conjI [OF s2 n1]]]]]
  note j = extractors_absorb_failures [of offline "''https://pixeldrain.com/u/abc123''" world0 blank_page "''abc123''", THEN conjunct2, THEN conjunct2, THEN conjunct2, THEN conjunct2, THEN conjunct2, THEN conjunct2, THEN conjunct2, THEN conjunct2, THEN conjunct2, THEN conjunct2, THEN conjunct2, THEN conjunct2, THEN conjunct2, THEN conjunct2, THEN conjunct2, THEN conjunct2, THEN conjunct1, rule_format, OF conjI [OF i1 conjI [OF i2 k1]], simplified append.simps]
  note k = extractors_absorb_failures [of "answering odd_info" "''https://pixeldrain.com/u/abc123''" world0 blank_page "''abc123''" odd_info, THEN conjunct2, THEN conjunct2, THEN conjunct2, THEN conjunct2, THEN conjunct2, THEN conjunct2, THEN conjunct2, THEN conjunct2, THEN conjunct2, THEN conjunct2, THEN conjunct2, THEN conjunct2, THEN conjunct2, THEN conjunct2, THEN conjunct2, THEN conjunct2, THEN conjunct2, rule_format, OF conjI [OF i1 conjI [OF i2 conjI [OF k2 k3]]]]
  show ?thesis
    by (intro conjI f1 f2 p1 p2 g1 g2 m1 m2 m3 m4 m5 m6 m7 m8 m9 m10 m11 s1 s2 s3 n1 i1 k1 k2 k3
        a [THEN conjunct1] a [THEN conjunct2, THEN conjunct1]
        a [THEN conjunct2, THEN conjunct2, THEN conjunct1]
        a [THEN conjunct2, THEN conjunct2, THEN conjunct2, THEN conjunct1]
        a [THEN conjunct2, THEN conjunct2, THEN conjunct2, THEN conjunct2]
        b c d e f g h i j k)
qed


end
